theory Spec2Isabelle
  imports Main
begin

section \<open>ConnectZ: the board state model of \<open>GameBoard\<close>\<close>

text \<open>
  A shallow embedding of class \<open>GameBoard\<close> of \<open>src/ConnectZ.py\<close>. The object is a
  record, every method takes the record and returns what the method returns together
  with the record as the method leaves it. Cells and the turn marker are one-character
  Python strings (\<open>' '\<close>, \<open>'X'\<close>, \<open>'O'\<close>, \<open>'B'\<close>) and are modelled as \<open>char\<close>;
  coordinates, counters and the turn counter are Python integers and are modelled
  as \<open>int\<close>. The numpy array \<open>self.board\<close> is a list of rows.
\<close>

datatype error = IndexError

record game =
  size_g :: int
  target :: int
  board :: "char list list"
  turn :: char
  last_move :: "(int \<times> int) option"
  game_over :: bool
  user_blocks_remaining :: int
  ai_blocks_remaining :: int
  user_power_moves_remaining :: int
  ai_power_moves_remaining :: int
  winning_sequence :: "(int \<times> int) list"
  last_removed_tile :: "(int \<times> int) option"
  turn_count :: int

text \<open>\<open>GameBoard.__init__\<close>: an empty \<open>size \<times> size\<close> grid, \<open>'X'\<close> to move.\<close>

definition init :: "int \<Rightarrow> int \<Rightarrow> game" where
  "init sz tg =
     \<lparr> size_g = sz, target = tg,
       board = replicate (nat sz) (replicate (nat sz) (CHR '' '')),
       turn = CHR ''X'', last_move = None, game_over = False,
       user_blocks_remaining = 1, ai_blocks_remaining = 1,
       user_power_moves_remaining = 3, ai_power_moves_remaining = 3,
       winning_sequence = [], last_removed_tile = None, turn_count = 0 \<rparr>"

text \<open>
  The shape of the array never changes after \<open>__init__\<close>: the board has \<open>size\<close> rows
  of \<open>size\<close> cells. Reads and writes the source guards by \<open>0 <= x < self.size\<close> are
  in range on such a board.
\<close>

definition wf :: "game \<Rightarrow> bool" where
  "wf g = (0 \<le> size_g g \<and> length (board g) = nat (size_g g) \<and>
           list_all (\<lambda>row. length row = nat (size_g g)) (board g))"

text \<open>\<open>self.board[x][y]\<close> where the source has checked \<open>0 <= x < size\<close>, \<open>0 <= y < size\<close>.\<close>

definition cell :: "game \<Rightarrow> int \<Rightarrow> int \<Rightarrow> char" where
  "cell g x y = board g ! nat x ! nat y"

text \<open>\<open>self.board[x][y] = v\<close> at a coordinate in range.\<close>

definition set_cell :: "char list list \<Rightarrow> int \<Rightarrow> int \<Rightarrow> char \<Rightarrow> char list list" where
  "set_cell b x y v = b[nat x := (b ! nat x)[nat y := v]]"

text \<open>
  An unguarded \<open>self.board[x][y]\<close>: numpy accepts an index \<open>i\<close> with
  \<open>-size <= i < size\<close>, counting a negative one from the end, and raises
  \<open>IndexError\<close> otherwise.
\<close>

definition index_ok :: "game \<Rightarrow> int \<Rightarrow> bool" where
  "index_ok g i = (- size_g g \<le> i \<and> i < size_g g)"

definition norm_index :: "game \<Rightarrow> int \<Rightarrow> int" where
  "norm_index g i = (if i < 0 then i + size_g g else i)"

definition board_at :: "game \<Rightarrow> int \<Rightarrow> int \<Rightarrow> error + char" where
  "board_at g x y =
     (if index_ok g x \<and> index_ok g y
      then Inr (cell g (norm_index g x) (norm_index g y))
      else Inl IndexError)"

subsection \<open>Validity predicates\<close>

definition in_bounds :: "game \<Rightarrow> int \<Rightarrow> int \<Rightarrow> bool" where
  "in_bounds g x y = (0 \<le> x \<and> x < size_g g \<and> 0 \<le> y \<and> y < size_g g)"

definition is_valid_move :: "game \<Rightarrow> int \<Rightarrow> int \<Rightarrow> bool" where
  "is_valid_move g x y =
     (0 \<le> x \<and> x < size_g g \<and> 0 \<le> y \<and> y < size_g g \<and> cell g x y = CHR '' '')"

definition is_valid_block :: "game \<Rightarrow> int \<Rightarrow> int \<Rightarrow> bool" where
  "is_valid_block g x y = is_valid_move g x y"

definition is_valid_remove :: "game \<Rightarrow> int \<Rightarrow> int \<Rightarrow> bool" where
  "is_valid_remove g x y =
     (let opponent = (if turn g = CHR ''X'' then CHR ''O'' else CHR ''X'')
      in 0 \<le> x \<and> x < size_g g \<and> 0 \<le> y \<and> y < size_g g \<and> cell g x y = opponent)"

subsection \<open>Win detection\<close>

text \<open>
  The two \<open>while\<close> loops of \<open>check_win\<close>: from \<open>(nx, ny)\<close>, step by \<open>(dx, dy)\<close> while the
  coordinate is on the board and holds \<open>player\<close>, counting the cells and appending them
  to \<open>sequence\<close>. The source steps by the four entries of \<open>directions\<close> and their
  negations, none of which is \<open>(0, 0)\<close>; the first conjunct of the guard says so and
  makes the function total.
\<close>

function win_scan ::
  "game \<Rightarrow> char \<Rightarrow> int \<Rightarrow> int \<Rightarrow> int \<Rightarrow> int \<Rightarrow> int \<times> (int \<times> int) list \<Rightarrow> int \<times> (int \<times> int) list"
where
  "win_scan g player nx ny dx dy (count, sequence) =
     (if (dx \<noteq> 0 \<or> dy \<noteq> 0) \<and>
         0 \<le> nx \<and> nx < size_g g \<and> 0 \<le> ny \<and> ny < size_g g \<and> cell g nx ny = player
      then win_scan g player (nx + dx) (ny + dy) dx dy (count + 1, sequence @ [(nx, ny)])
      else (count, sequence))"
  by pat_completeness auto
termination
  by (relation "measure (\<lambda>(g, player, nx, ny, dx, dy, acc).
        if 0 < dx then nat (size_g g - nx)
        else if dx < 0 then nat (nx + 1)
        else if 0 < dy then nat (size_g g - ny)
        else nat (ny + 1))") auto

declare win_scan.simps [simp del]

definition directions :: "(int \<times> int) list" where
  "directions = [(0, 1), (1, 0), (1, 1), (-1, 1)]"

text \<open>
  The \<open>for dx, dy in directions\<close> loop of \<open>check_win\<close>: the sequence of the first
  direction whose count reaches \<open>target\<close>, or \<open>None\<close> when the loop runs out.
\<close>

fun check_dirs :: "game \<Rightarrow> int \<Rightarrow> int \<Rightarrow> char \<Rightarrow> (int \<times> int) list \<Rightarrow> (int \<times> int) list option" where
  "check_dirs g x y player [] = None"
| "check_dirs g x y player ((dx, dy) # ds) =
     (let acc = win_scan g player (x + dx) (y + dy) dx dy (1, [(x, y)]);
          acc = win_scan g player (x - dx) (y - dy) (- dx) (- dy) acc
      in if target g \<le> fst acc then Some (snd acc) else check_dirs g x y player ds)"

text \<open>
  \<open>check_win(x, y, update_winning_sequence)\<close>. The first read of the cell is not
  guarded, so it raises on a coordinate numpy rejects.
\<close>

definition check_win :: "int \<Rightarrow> int \<Rightarrow> bool \<Rightarrow> game \<Rightarrow> error + (bool \<times> game)" where
  "check_win x y update_winning_sequence g =
     (case board_at g x y of
        Inl e \<Rightarrow> Inl e
      | Inr player \<Rightarrow>
          if player = CHR ''B'' \<or> player = CHR '' '' then Inr (False, g)
          else (case check_dirs g x y player directions of
                  None \<Rightarrow> Inr (False, g)
                | Some sequence \<Rightarrow>
                    Inr (True, if update_winning_sequence
                               then g\<lparr>winning_sequence := sequence\<rparr> else g)))"

subsection \<open>Mutations\<close>

text \<open>
  \<open>place_piece(x, y, switch_turn, move_type)\<close> returns a pair of booleans; with a
  \<open>move_type\<close> other than \<open>'normal'\<close> and \<open>'block'\<close> the method falls off its end and
  returns Python's \<open>None\<close>.
\<close>

definition place_piece ::
  "int \<Rightarrow> int \<Rightarrow> bool \<Rightarrow> string \<Rightarrow> game \<Rightarrow> error + ((bool \<times> bool) option \<times> game)"
where
  "place_piece x y switch_turn move_type g =
     (if game_over g then Inr (Some (False, False), g)
      else if move_type = ''normal'' then
        (if is_valid_move g x y then
           (let g1 = g\<lparr>board := set_cell (board g) x y (turn g), last_move := Some (x, y)\<rparr>
            in case check_win x y True g1 of
                 Inl e \<Rightarrow> Inl e
               | Inr (win, g2) \<Rightarrow>
                   (let g3 = (if win then g2\<lparr>game_over := True\<rparr>
                              else if switch_turn
                              then g2\<lparr>turn := (if turn g2 = CHR ''X'' then CHR ''O'' else CHR ''X'')\<rparr>
                              else g2)
                    in Inr (Some (True, win), g3\<lparr>turn_count := turn_count g3 + 1\<rparr>)))
         else Inr (Some (False, False), g))
      else if move_type = ''block'' then
        (if is_valid_block g x y then
           (let g1 = g\<lparr>board := set_cell (board g) x y (CHR ''B''), last_move := Some (x, y)\<rparr>;
                g2 = (if turn g1 = CHR ''X''
                      then g1\<lparr>user_blocks_remaining := user_blocks_remaining g1 - 1\<rparr>
                      else g1\<lparr>ai_blocks_remaining := ai_blocks_remaining g1 - 1\<rparr>)
            in Inr (Some (True, True), g2))
         else Inr (Some (False, False), g))
      else Inr (None, g))"

definition block_tile :: "int \<Rightarrow> int \<Rightarrow> game \<Rightarrow> error + ((bool \<times> bool) option \<times> game)" where
  "block_tile x y g = place_piece x y True ''block'' g"

definition remove_tile :: "int \<Rightarrow> int \<Rightarrow> bool \<Rightarrow> game \<Rightarrow> bool \<times> game" where
  "remove_tile x y switch_turn g =
     (if is_valid_remove g x y then
        (let g1 = g\<lparr>board := set_cell (board g) x y (CHR '' '')\<rparr>;
             g2 = (if turn g1 = CHR ''X''
                   then g1\<lparr>user_power_moves_remaining := user_power_moves_remaining g1 - 1\<rparr>
                   else g1\<lparr>ai_power_moves_remaining := ai_power_moves_remaining g1 - 1\<rparr>);
             g3 = g2\<lparr>last_removed_tile := Some (x, y)\<rparr>;
             g4 = (if switch_turn
                   then g3\<lparr>turn := (if turn g3 = CHR ''X'' then CHR ''O'' else CHR ''X'')\<rparr>
                   else g3)
         in (True, g4\<lparr>turn_count := turn_count g4 + 1\<rparr>))
      else (False, g))"

section \<open>The search and decision engine\<close>

subsection \<open>Terminal test and evaluation\<close>

text \<open>Python's \<open>range(n)\<close>, empty when \<open>n \<le> 0\<close>.\<close>

definition py_range :: "int \<Rightarrow> int list" where
  "py_range n = [0..n - 1]"

text \<open>
  \<open>is_terminal()\<close>: the last move wins, or no cell is empty. \<open>self.last_move\<close> is
  \<open>None\<close> or a pair, and a pair is always true in Python. \<open>check_win\<close> is called with
  \<open>update_winning_sequence=False\<close> and leaves the object as it is.
\<close>

definition is_terminal :: "game \<Rightarrow> error + bool" where
  "is_terminal g =
     (case (case last_move g of
              None \<Rightarrow> Inr False
            | Some (x, y) \<Rightarrow>
                (case check_win x y False g of Inl e \<Rightarrow> Inl e | Inr (w, _) \<Rightarrow> Inr w)) of
        Inl e \<Rightarrow> Inl e
      | Inr True \<Rightarrow> Inr True
      | Inr False \<Rightarrow>
          Inr (\<not> list_ex (\<lambda>x. list_ex (\<lambda>y. cell g x y = CHR '' '') (py_range (size_g g)))
                   (py_range (size_g g))))"

text \<open>
  The two \<open>while\<close> loops of \<open>evaluate_position\<close>: as in \<open>check_win\<close>, but the loop
  leaves \<open>(nx, ny)\<close> at the first cell past the run, which the caller inspects.
\<close>

function pos_scan ::
  "game \<Rightarrow> char \<Rightarrow> int \<Rightarrow> int \<Rightarrow> int \<Rightarrow> int \<Rightarrow> int \<Rightarrow> int \<times> int \<times> int"
where
  "pos_scan g player nx ny dx dy count =
     (if (dx \<noteq> 0 \<or> dy \<noteq> 0) \<and>
         0 \<le> nx \<and> nx < size_g g \<and> 0 \<le> ny \<and> ny < size_g g \<and> cell g nx ny = player
      then pos_scan g player (nx + dx) (ny + dy) dx dy (count + 1)
      else (count, nx, ny))"
  by pat_completeness auto
termination
  by (relation "measure (\<lambda>(g, player, nx, ny, dx, dy, count).
        if 0 < dx then nat (size_g g - nx)
        else if dx < 0 then nat (nx + 1)
        else if 0 < dy then nat (size_g g - ny)
        else nat (ny + 1))") auto

declare pos_scan.simps [simp del]

text \<open>
  One pass of the \<open>for dx, dy in directions\<close> loop of \<open>evaluate_position\<close>: what the
  pass adds to \<open>score\<close>.
\<close>

definition direction_score :: "game \<Rightarrow> int \<Rightarrow> int \<Rightarrow> char \<Rightarrow> int \<Rightarrow> int \<Rightarrow> int" where
  "direction_score g x y player dx dy =
     (case pos_scan g player (x + dx) (y + dy) dx dy 1 of
        (count, nx, ny) \<Rightarrow>
          (let open_ends = (if 0 \<le> nx \<and> nx < size_g g \<and> 0 \<le> ny \<and> ny < size_g g \<and>
                               cell g nx ny = CHR '' '' then 1 else (0::int))
           in case pos_scan g player (x - dx) (y - dy) (- dx) (- dy) count of
                (count, nx, ny) \<Rightarrow>
                  (let open_ends = (if 0 \<le> nx \<and> nx < size_g g \<and> 0 \<le> ny \<and> ny < size_g g \<and>
                                       cell g nx ny = CHR '' '' then open_ends + 1 else open_ends)
                   in if target g \<le> count then 1000
                      else if count = target g - 1 \<and> 0 < open_ends then 100
                      else if count = target g - 2 \<and> 1 < open_ends then 10
                      else if count = target g - 3 \<and> 1 < open_ends then 5
                      else 0)))"

definition evaluate_position :: "game \<Rightarrow> int \<Rightarrow> int \<Rightarrow> char \<Rightarrow> int" where
  "evaluate_position g x y player =
     fold (\<lambda>(dx, dy) score. score + direction_score g x y player dx dy) directions 0"

text \<open>The nested \<open>for x\<close>, \<open>for y\<close> loops of \<open>heuristic_evaluation\<close> for one player.\<close>

definition player_score :: "game \<Rightarrow> char \<Rightarrow> int" where
  "player_score g player =
     fold (\<lambda>x ps. fold (\<lambda>y ps. if cell g x y = player
                               then ps + evaluate_position g x y player else ps)
                       (py_range (size_g g)) ps)
          (py_range (size_g g)) 0"

definition heuristic_evaluation :: "game \<Rightarrow> int" where
  "heuristic_evaluation g =
     fold (\<lambda>player score.
             if player = CHR ''O''
             then (score + player_score g player) - (3 - ai_power_moves_remaining g) * 50
             else (score - player_score g player) + (3 - user_power_moves_remaining g) * 50)
          [CHR ''O'', CHR ''X''] 0"

text \<open>\<open>evaluate()\<close>. The read of the cell at \<open>last_move\<close> is not guarded.\<close>

definition evaluate :: "game \<Rightarrow> error + int" where
  "evaluate g =
     (case last_move g of
        None \<Rightarrow> Inr (heuristic_evaluation g)
      | Some (x, y) \<Rightarrow>
          (case board_at g x y of
             Inl e \<Rightarrow> Inl e
           | Inr player \<Rightarrow>
               if player = CHR ''O'' then
                 (case check_win x y False g of
                    Inl e \<Rightarrow> Inl e
                  | Inr (w, _) \<Rightarrow> if w then Inr 10000 else Inr (heuristic_evaluation g))
               else if player = CHR ''X'' then
                 (case check_win x y False g of
                    Inl e \<Rightarrow> Inl e
                  | Inr (w, _) \<Rightarrow> if w then Inr (- 10000) else Inr (heuristic_evaluation g))
               else Inr (heuristic_evaluation g)))"

subsection \<open>Move enumeration\<close>

text \<open>A move is the tuple \<open>(action, x, y)\<close> with \<open>action\<close> one of the strings
  \<open>'place'\<close>, \<open>'block'\<close>, \<open>'remove'\<close>.\<close>

type_synonym move = "string \<times> int \<times> int"

text \<open>The empty neighbours of \<open>(x, y)\<close>, in the order of the \<open>dx\<close>, \<open>dy\<close> loops.\<close>

definition neighbour_places :: "game \<Rightarrow> int \<Rightarrow> int \<Rightarrow> move list" where
  "neighbour_places g x y =
     [(''place'', x + dx, y + dy). dx \<leftarrow> [-1, 0, 1], dy \<leftarrow> [-1, 0, 1],
        0 \<le> x + dx \<and> x + dx < size_g g \<and> 0 \<le> y + dy \<and> y + dy < size_g g,
        cell g (x + dx) (y + dy) = CHR '' '']"

definition place_candidates :: "game \<Rightarrow> move list" where
  "place_candidates g =
     concat [neighbour_places g x y. x \<leftarrow> py_range (size_g g), y \<leftarrow> py_range (size_g g),
               cell g x y \<noteq> CHR '' '' \<and> cell g x y \<noteq> CHR ''B'']"

text \<open>\<open>(action, x, y)\<close> for every cell that holds \<open>c\<close>, row by row.\<close>

definition cells_holding :: "game \<Rightarrow> char \<Rightarrow> string \<Rightarrow> move list" where
  "cells_holding g c action =
     [(action, x, y). x \<leftarrow> py_range (size_g g), y \<leftarrow> py_range (size_g g), cell g x y = c]"

text \<open>
  \<open>get_valid_moves(include_blocks, include_removes)\<close>. The place candidates are
  collected in a Python \<open>set\<close> and turned into a list; Python leaves the order of that
  list open, the model keeps one occurrence of each candidate in the order of the scan.
  Block and remove candidates are appended to the list in row order.
\<close>

definition get_valid_moves :: "bool \<Rightarrow> bool \<Rightarrow> game \<Rightarrow> move list" where
  "get_valid_moves include_blocks include_removes g =
     (let moves = remdups (place_candidates g);
          moves = (if moves = []
                   then [(''place'', size_g g div 2, size_g g div 2)] else moves);
          move_list = moves;
          move_list =
            (if include_blocks then
               (if turn g = CHR ''X'' \<and> 0 < user_blocks_remaining g
                then move_list @ cells_holding g (CHR '' '') ''block''
                else if turn g = CHR ''O'' \<and> 0 < ai_blocks_remaining g
                then move_list @ cells_holding g (CHR '' '') ''block''
                else move_list)
             else move_list);
          move_list =
            (if include_removes then
               (let opponent = (if turn g = CHR ''X'' then CHR ''O'' else CHR ''X'')
                in if turn g = CHR ''X'' \<and> 0 < user_power_moves_remaining g
                   then move_list @ cells_holding g opponent ''remove''
                   else if turn g = CHR ''O'' \<and> 0 < ai_power_moves_remaining g
                   then move_list @ cells_holding g opponent ''remove''
                   else move_list)
             else move_list)
      in move_list)"

subsection \<open>Alpha-beta search\<close>

text \<open>
  Scores are Python numbers: the integers \<open>evaluate\<close> returns and the floats
  \<open>float('-inf')\<close> and \<open>float('inf')\<close> the search starts from.
\<close>

datatype score = NegInf | Fin int | PosInf

fun score_le :: "score \<Rightarrow> score \<Rightarrow> bool" where
  "score_le NegInf _ = True"
| "score_le _ PosInf = True"
| "score_le (Fin a) (Fin b) = (a \<le> b)"
| "score_le _ _ = False"

text \<open>Python's \<open>max(a, b)\<close> and \<open>min(a, b)\<close>: the first argument unless the second is
  strictly beyond it.\<close>

definition score_max :: "score \<Rightarrow> score \<Rightarrow> score" where
  "score_max a b = (if score_le b a then a else b)"

definition score_min :: "score \<Rightarrow> score \<Rightarrow> score" where
  "score_min a b = (if score_le a b then a else b)"

text \<open>
  The trial moves of the search loops and their inverses, written in the source inside
  the loop bodies of \<open>minimax\<close> (both branches) and \<open>ai_move_decision\<close>. The flag says
  whose move is tried: the engine's in the maximizing branch and in \<open>ai_move_decision\<close>
  (piece \<open>'O'\<close>, the \<open>ai_\<close> counters), the human's in the minimizing branch (piece
  \<open>'X'\<close>, the \<open>user_\<close> counters).
\<close>

definition apply_place :: "bool \<Rightarrow> int \<Rightarrow> int \<Rightarrow> game \<Rightarrow> game" where
  "apply_place maximizing x y g =
     g\<lparr>board := set_cell (board g) x y (if maximizing then CHR ''O'' else CHR ''X''),
       last_move := Some (x, y),
       turn_count := turn_count g + 1\<rparr>"

definition undo_place :: "int \<Rightarrow> int \<Rightarrow> game \<Rightarrow> game" where
  "undo_place x y g =
     g\<lparr>board := set_cell (board g) x y (CHR '' ''), turn_count := turn_count g - 1\<rparr>"

definition apply_block :: "bool \<Rightarrow> int \<Rightarrow> int \<Rightarrow> game \<Rightarrow> game" where
  "apply_block maximizing x y g =
     (if maximizing
      then g\<lparr>board := set_cell (board g) x y (CHR ''B''),
             ai_blocks_remaining := ai_blocks_remaining g - 1\<rparr>
      else g\<lparr>board := set_cell (board g) x y (CHR ''B''),
             user_blocks_remaining := user_blocks_remaining g - 1\<rparr>)"

definition undo_block :: "bool \<Rightarrow> int \<Rightarrow> int \<Rightarrow> game \<Rightarrow> game" where
  "undo_block maximizing x y g =
     (if maximizing
      then g\<lparr>board := set_cell (board g) x y (CHR '' ''),
             ai_blocks_remaining := ai_blocks_remaining g + 1\<rparr>
      else g\<lparr>board := set_cell (board g) x y (CHR '' ''),
             user_blocks_remaining := user_blocks_remaining g + 1\<rparr>)"

definition apply_remove :: "bool \<Rightarrow> int \<Rightarrow> int \<Rightarrow> game \<Rightarrow> game" where
  "apply_remove maximizing x y g =
     (if maximizing
      then g\<lparr>board := set_cell (board g) x y (CHR '' ''),
             ai_power_moves_remaining := ai_power_moves_remaining g - 1,
             turn_count := turn_count g + 1\<rparr>
      else g\<lparr>board := set_cell (board g) x y (CHR '' ''),
             user_power_moves_remaining := user_power_moves_remaining g - 1,
             turn_count := turn_count g + 1\<rparr>)"

definition undo_remove :: "bool \<Rightarrow> int \<Rightarrow> int \<Rightarrow> char \<Rightarrow> game \<Rightarrow> game" where
  "undo_remove maximizing x y removed_piece g =
     (if maximizing
      then g\<lparr>board := set_cell (board g) x y removed_piece,
             ai_power_moves_remaining := ai_power_moves_remaining g + 1,
             turn_count := turn_count g - 1\<rparr>
      else g\<lparr>board := set_cell (board g) x y removed_piece,
             user_power_moves_remaining := user_power_moves_remaining g + 1,
             turn_count := turn_count g - 1\<rparr>)"

text \<open>
  The \<open>continue\<close> statements of the loop bodies. The engine's loops skip the
  coordinate of \<open>last_removed_tile\<close> and, while \<open>turn_count < 10\<close>, every remove; both
  sides skip a block or a remove whose counter is used up. \<open>self.last_removed_tile\<close>
  is \<open>None\<close> or a pair, and a pair is always true in Python.
\<close>

definition skips :: "bool \<Rightarrow> game \<Rightarrow> move \<Rightarrow> bool" where
  "skips maximizing g m =
     (case m of (action, x, y) \<Rightarrow>
        if maximizing then
          (if last_removed_tile g = Some (x, y) then True
           else if action = ''remove'' \<and> turn_count g < 10 then True
           else if action = ''place'' then False
           else if action = ''block'' then ai_blocks_remaining g \<le> 0
           else if action = ''remove'' then ai_power_moves_remaining g \<le> 0
           else False)
        else
          (if action = ''place'' then False
           else if action = ''block'' then user_blocks_remaining g \<le> 0
           else if action = ''remove'' then user_power_moves_remaining g \<le> 0
           else False))"

text \<open>The state a trial hands to the recursive call, and the inverse applied to the
  state the call hands back. \<open>removed_piece\<close> is read before the move is applied.\<close>

definition trial_apply :: "bool \<Rightarrow> move \<Rightarrow> game \<Rightarrow> game" where
  "trial_apply maximizing m g =
     (case m of (action, x, y) \<Rightarrow>
        if action = ''place'' then apply_place maximizing x y g
        else if action = ''block'' then apply_block maximizing x y g
        else apply_remove maximizing x y g)"

definition trial_undo :: "bool \<Rightarrow> move \<Rightarrow> char \<Rightarrow> game \<Rightarrow> game" where
  "trial_undo maximizing m removed_piece g =
     (case m of (action, x, y) \<Rightarrow>
        if action = ''place'' then undo_place x y g
        else if action = ''block'' then undo_block maximizing x y g
        else undo_remove maximizing x y removed_piece g)"

definition known_action :: "move \<Rightarrow> bool" where
  "known_action m = (fst m = ''place'' \<or> fst m = ''block'' \<or> fst m = ''remove'')"

text \<open>
  \<open>minimax(depth, alpha, beta, maximizing_player)\<close> on the shared board: the result is
  the score and the object as the call leaves it. \<open>depth\<close> is a natural number: the
  callers pass 1, 2 or 3 and every recursive call passes \<open>depth - 1\<close>.

  \<open>max_trial\<close> and \<open>min_trial\<close> are one pass of the \<open>for move in moves\<close> loop up to
  the assignment of \<open>eval\<close>: \<open>None\<close> for \<open>continue\<close>, else the score of the recursive
  call and the state after the undo. \<open>max_loop\<close> and \<open>min_loop\<close> are the loops with
  their running \<open>max_eval\<close>/\<open>min_eval\<close>, \<open>alpha\<close>, \<open>beta\<close> and the \<open>break\<close>.
  The first argument of the trial and loop functions is \<open>depth - 1\<close>.
\<close>

function minimax :: "nat \<Rightarrow> score \<Rightarrow> score \<Rightarrow> bool \<Rightarrow> game \<Rightarrow> error + (score \<times> game)"
and max_trial :: "nat \<Rightarrow> score \<Rightarrow> score \<Rightarrow> game \<Rightarrow> move \<Rightarrow> (error + (score \<times> game)) option"
and max_loop :: "nat \<Rightarrow> move list \<Rightarrow> score \<Rightarrow> score \<Rightarrow> score \<Rightarrow> game \<Rightarrow> error + (score \<times> game)"
and min_trial :: "nat \<Rightarrow> score \<Rightarrow> score \<Rightarrow> game \<Rightarrow> move \<Rightarrow> (error + (score \<times> game)) option"
and min_loop :: "nat \<Rightarrow> move list \<Rightarrow> score \<Rightarrow> score \<Rightarrow> score \<Rightarrow> game \<Rightarrow> error + (score \<times> game)"
where
  "minimax 0 alpha beta maximizing_player g =
     (case evaluate g of Inl e \<Rightarrow> Inl e | Inr v \<Rightarrow> Inr (Fin v, g))"
| "minimax (Suc d) alpha beta maximizing_player g =
     (case is_terminal g of
        Inl e \<Rightarrow> Inl e
      | Inr True \<Rightarrow> (case evaluate g of Inl e \<Rightarrow> Inl e | Inr v \<Rightarrow> Inr (Fin v, g))
      | Inr False \<Rightarrow>
          (case (if maximizing_player
                 then max_loop d (get_valid_moves True True g) NegInf alpha beta g
                 else min_loop d (get_valid_moves True True g) PosInf alpha beta g) of
             Inl e \<Rightarrow> Inl e
           | Inr (best, g') \<Rightarrow>
               Inr (best, g'\<lparr>ai_power_moves_remaining := ai_power_moves_remaining g,
                              user_power_moves_remaining := user_power_moves_remaining g\<rparr>)))"
| "max_trial d alpha beta g m =
     (if skips True g m then None
      else if known_action m then
        Some (case minimax d alpha beta False (trial_apply True m g) of
                Inl e \<Rightarrow> Inl e
              | Inr (eval, g') \<Rightarrow> Inr (eval, trial_undo True m (cell g (fst (snd m)) (snd (snd m))) g'))
      else Some (Inr (Fin 0, g)))"
| "max_loop d [] max_eval alpha beta g = Inr (max_eval, g)"
| "max_loop d (m # ms) max_eval alpha beta g =
     (case max_trial d alpha beta g m of
        None \<Rightarrow> max_loop d ms max_eval alpha beta g
      | Some (Inl e) \<Rightarrow> Inl e
      | Some (Inr (eval, g')) \<Rightarrow>
          (if score_le beta (score_max alpha eval)
           then Inr (score_max max_eval eval, g'\<lparr>last_move := None\<rparr>)
           else max_loop d ms (score_max max_eval eval) (score_max alpha eval) beta
                  (g'\<lparr>last_move := None\<rparr>)))"
| "min_trial d alpha beta g m =
     (if skips False g m then None
      else if known_action m then
        Some (case minimax d alpha beta True (trial_apply False m g) of
                Inl e \<Rightarrow> Inl e
              | Inr (eval, g') \<Rightarrow> Inr (eval, trial_undo False m (cell g (fst (snd m)) (snd (snd m))) g'))
      else Some (Inr (Fin 0, g)))"
| "min_loop d [] min_eval alpha beta g = Inr (min_eval, g)"
| "min_loop d (m # ms) min_eval alpha beta g =
     (case min_trial d alpha beta g m of
        None \<Rightarrow> min_loop d ms min_eval alpha beta g
      | Some (Inl e) \<Rightarrow> Inl e
      | Some (Inr (eval, g')) \<Rightarrow>
          (if score_le (score_min beta eval) alpha
           then Inr (score_min min_eval eval, g'\<lparr>last_move := None\<rparr>)
           else min_loop d ms (score_min min_eval eval) alpha (score_min beta eval)
                  (g'\<lparr>last_move := None\<rparr>)))"
  by pat_completeness auto
termination
  by (relation "inv_image (less_than <*lex*> less_than <*lex*> less_than)
        (\<lambda>a. case a of
           Inl (Inl (d, alpha, beta, mx, g)) \<Rightarrow> (d, 0::nat, 0::nat)
         | Inl (Inr (d, alpha, beta, g, m)) \<Rightarrow> (d, 1, 0)
         | Inr (Inl (d, ms, best, alpha, beta, g)) \<Rightarrow> (d, 2, length ms)
         | Inr (Inr (Inl (d, alpha, beta, g, m))) \<Rightarrow> (d, 1, 0)
         | Inr (Inr (Inr (d, ms, best, alpha, beta, g))) \<Rightarrow> (d, 2, length ms))")
     auto

declare max_trial.simps [simp del] min_trial.simps [simp del]

text \<open>
  \<open>ai_move_decision(depth)\<close>: the engine's loop at the root, every trial searched with
  the full window. Its loop body up to the assignment of \<open>score\<close> is that of the
  maximizing branch of \<open>minimax\<close>. The first argument of \<open>decision_loop\<close> is
  \<open>depth - 1\<close>; \<open>depth\<close> is 2, 3 or 4 in every call of the repository.
\<close>

primrec decision_loop ::
  "nat \<Rightarrow> move list \<Rightarrow> score \<Rightarrow> move option \<Rightarrow> game \<Rightarrow> error + (move option \<times> game)"
where
  "decision_loop d [] best_score best_move g = Inr (best_move, g)"
| "decision_loop d (m # ms) best_score best_move g =
     (case max_trial d NegInf PosInf g m of
        None \<Rightarrow> decision_loop d ms best_score best_move g
      | Some (Inl e) \<Rightarrow> Inl e
      | Some (Inr (score, g')) \<Rightarrow>
          (if \<not> score_le score best_score
           then decision_loop d ms score (Some m) (g'\<lparr>last_move := None\<rparr>)
           else decision_loop d ms best_score best_move (g'\<lparr>last_move := None\<rparr>)))"

definition ai_move_decision :: "nat \<Rightarrow> game \<Rightarrow> error + (move option \<times> game)" where
  "ai_move_decision depth g =
     decision_loop (depth - 1) (get_valid_moves True True g) NegInf None g"

section \<open>Notions the properties are stated with\<close>

text \<open>Between two states, no counter has grown and at most one of the four has gone
  down, by one.\<close>

abbreviation (input) spent_at_most_one :: "game \<Rightarrow> game \<Rightarrow> bool" where
  "spent_at_most_one g g' \<equiv>
     (user_blocks_remaining g' = user_blocks_remaining g \<and>
      ai_blocks_remaining g' = ai_blocks_remaining g \<and>
      user_power_moves_remaining g' = user_power_moves_remaining g \<and>
      ai_power_moves_remaining g' = ai_power_moves_remaining g) \<or>
     (user_blocks_remaining g' = user_blocks_remaining g - 1 \<and>
      ai_blocks_remaining g' = ai_blocks_remaining g \<and>
      user_power_moves_remaining g' = user_power_moves_remaining g \<and>
      ai_power_moves_remaining g' = ai_power_moves_remaining g) \<or>
     (user_blocks_remaining g' = user_blocks_remaining g \<and>
      ai_blocks_remaining g' = ai_blocks_remaining g - 1 \<and>
      user_power_moves_remaining g' = user_power_moves_remaining g \<and>
      ai_power_moves_remaining g' = ai_power_moves_remaining g) \<or>
     (user_blocks_remaining g' = user_blocks_remaining g \<and>
      ai_blocks_remaining g' = ai_blocks_remaining g \<and>
      user_power_moves_remaining g' = user_power_moves_remaining g - 1 \<and>
      ai_power_moves_remaining g' = ai_power_moves_remaining g) \<or>
     (user_blocks_remaining g' = user_blocks_remaining g \<and>
      ai_blocks_remaining g' = ai_blocks_remaining g \<and>
      user_power_moves_remaining g' = user_power_moves_remaining g \<and>
      ai_power_moves_remaining g' = ai_power_moves_remaining g - 1)"

text \<open>
  A line through \<open>(x, y)\<close>: the cells \<open>(x + k dx, y + k dy)\<close> for \<open>-a \<le> k \<le> b\<close>
  are all on the board and all hold what \<open>(x, y)\<close> holds. With \<open>0 \<le> a\<close> and
  \<open>0 \<le> b\<close> this is a contiguous run of \<open>a + b + 1\<close> cells of one owner that
  \<open>(x, y)\<close> belongs to.
\<close>

definition contiguous_run :: "game \<Rightarrow> int \<Rightarrow> int \<Rightarrow> int \<Rightarrow> int \<Rightarrow> int \<Rightarrow> int \<Rightarrow> bool" where
  "contiguous_run g x y dx dy a b =
     list_all (\<lambda>k. in_bounds g (x + k * dx) (y + k * dy) \<and>
                    cell g (x + k * dx) (y + k * dy) = cell g x y) [- a..b]"

text \<open>The value of \<open>count\<close> in \<open>check_win\<close> after the two \<open>while\<close> loops of one
  direction.\<close>

definition line_count :: "game \<Rightarrow> int \<Rightarrow> int \<Rightarrow> char \<Rightarrow> int \<Rightarrow> int \<Rightarrow> int" where
  "line_count g x y player dx dy =
     fst (win_scan g player (x - dx) (y - dy) (- dx) (- dy)
            (win_scan g player (x + dx) (y + dy) dx dy (1, [(x, y)])))"

text \<open>The cells of the board that hold \<open>c\<close>.\<close>

definition cells_of :: "game \<Rightarrow> char \<Rightarrow> (int \<times> int) set" where
  "cells_of g c = {(x, y). in_bounds g x y \<and> cell g x y = c}"

section \<open>Example positions\<close>

text \<open>The default board after the human has opened at the centre: \<open>'O'\<close> to move.\<close>

definition ex_first_move :: game where
  "ex_first_move =
     (init 10 5)\<lparr>board := set_cell (board (init 10 5)) 5 5 (CHR ''X''), turn := CHR ''O'',
                  last_move := Some (5, 5), turn_count := 1\<rparr>"

text \<open>The same position once the game has been declared over.\<close>

definition ex_over :: game where
  "ex_over = ex_first_move\<lparr>turn := CHR ''O'', game_over := True\<rparr>"

text \<open>The example position after the engine has blocked the corner, and after it has
  removed the human's piece instead.\<close>

definition ex_blocked :: game where
  "ex_blocked =
     ex_first_move\<lparr>board := set_cell (board ex_first_move) 0 0 (CHR ''B''),
                   last_move := Some (0, 0), ai_blocks_remaining := 0\<rparr>"

definition ex_removed :: game where
  "ex_removed =
     ex_first_move\<lparr>board := set_cell (board ex_first_move) 5 5 (CHR '' ''),
                   ai_power_moves_remaining := 2, last_removed_tile := Some (5, 5),
                   turn := CHR ''X'', turn_count := 2\<rparr>"

text \<open>
  A position three turns into a game: the human blocks \<open>(0, 1)\<close> and places at the
  corner \<open>(0, 0)\<close>, the engine blocks \<open>(1, 0)\<close> and places at \<open>(1, 1)\<close>, the human
  removes that piece. The only empty neighbour of a piece is the cell just vacated.
  \<open>ex_cornered_play\<close> is that game, played with the mutations of the model.
\<close>

definition ex_cornered :: game where
  "ex_cornered =
     (init 10 5)\<lparr>board := set_cell (set_cell (set_cell (board (init 10 5)) 0 1 (CHR ''B''))
                                0 0 (CHR ''X'')) 1 0 (CHR ''B''),
                  turn := CHR ''O'', last_move := Some (1, 1),
                  user_blocks_remaining := 0, ai_blocks_remaining := 0,
                  user_power_moves_remaining := 2,
                  last_removed_tile := Some (1, 1), turn_count := 3\<rparr>"

definition ex_cornered_play :: "error + game" where
  "ex_cornered_play =
     (case block_tile 0 1 (init 10 5) of Inl e \<Rightarrow> Inl e | Inr (_, g1) \<Rightarrow>
      case place_piece 0 0 True ''normal'' g1 of Inl e \<Rightarrow> Inl e | Inr (_, g2) \<Rightarrow>
      case block_tile 1 0 g2 of Inl e \<Rightarrow> Inl e | Inr (_, g3) \<Rightarrow>
      case place_piece 1 1 True ''normal'' g3 of Inl e \<Rightarrow> Inl e | Inr (_, g4) \<Rightarrow>
      Inr (snd (remove_tile 1 1 True g4)))"

text \<open>Five in a row for the human, the last piece at \<open>(5, 6)\<close>; and a row where a
  blocked cell separates two pieces from three.\<close>

definition ex_five :: game where
  "ex_five =
     (init 10 5)\<lparr>board := (board (init 10 5))[5 := ''  XXXXX   ''],
                  last_move := Some (5, 6), turn_count := 9\<rparr>"

definition ex_gap :: game where
  "ex_gap =
     (init 10 5)\<lparr>board := (board (init 10 5))[5 := ''  XXBXXX  ''],
                  last_move := Some (5, 6), turn_count := 9, ai_blocks_remaining := 0\<rparr>"

text \<open>Five in a diagonal for the engine, the last piece at \<open>(4, 2)\<close>.\<close>

definition ex_five_ai :: game where
  "ex_five_ai =
     (init 10 5)\<lparr>board := (board (init 10 5))[2 := ''O         '', 3 := '' O   X    '',
                                               4 := ''  O  X    '', 5 := ''   O X    '',
                                               6 := ''    OX    ''],
                  last_move := Some (4, 2), turn_count := 9\<rparr>"

text \<open>The empty board after the human has blocked the centre.\<close>

definition ex_centre_blocked :: game where
  "ex_centre_blocked =
     (init 10 5)\<lparr>board := set_cell (board (init 10 5)) 5 5 (CHR ''B''),
                  last_move := Some (5, 5), user_blocks_remaining := 0\<rparr>"

section \<open>The mutations: what they return and what they change\<close>

lemma board_at_in_bounds:
  "0 \<le> x \<Longrightarrow> x < size_g g \<Longrightarrow> 0 \<le> y \<Longrightarrow> y < size_g g \<Longrightarrow> board_at g x y = Inr (cell g x y)"
  by (simp add: board_at_def index_ok_def norm_index_def)

lemma check_win_returns:
  assumes "board_at g x y = Inr c"
  shows "\<exists>w sq. check_win x y u g = Inr (w, g\<lparr>winning_sequence := sq\<rparr>)"
proof (cases "c = CHR ''B'' \<or> c = CHR '' ''")
  case True
  then have "check_win x y u g = Inr (False, g\<lparr>winning_sequence := winning_sequence g\<rparr>)"
    using assms by (simp add: check_win_def)
  then show ?thesis by blast
next
  case False
  show ?thesis
  proof (cases "check_dirs g x y c directions")
    case None
    then have "check_win x y u g = Inr (False, g\<lparr>winning_sequence := winning_sequence g\<rparr>)"
      using assms False by (simp add: check_win_def)
    then show ?thesis by blast
  next
    case (Some sq)
    then have "check_win x y u g =
        Inr (True, g\<lparr>winning_sequence := (if u then sq else winning_sequence g)\<rparr>)"
      using assms False by (simp add: check_win_def)
    then show ?thesis by blast
  qed
qed

lemma invalid_place: "\<not> is_valid_move g x y \<Longrightarrow> mt = ''normal'' \<or> mt = ''block'' \<Longrightarrow>
   place_piece x y sw mt g = Inr (Some (False, False), g)"
  by (auto simp: place_piece_def is_valid_block_def)

lemma invalid_remove: "\<not> is_valid_remove g x y \<Longrightarrow> remove_tile x y sw g = (False, g)"
  by (simp add: remove_tile_def)

lemma place_normal_valid:
  assumes "\<not> game_over g" "is_valid_move g x y"
  shows "\<exists>w sq. place_piece x y sw ''normal'' g =
     Inr (Some (True, w),
          g\<lparr>board := set_cell (board g) x y (turn g), last_move := Some (x, y),
            winning_sequence := sq, game_over := w,
            turn := (if \<not> w \<and> sw then (if turn g = CHR ''X'' then CHR ''O'' else CHR ''X'') else turn g),
            turn_count := turn_count g + 1\<rparr>)"
proof -
  let ?g1 = "g\<lparr>board := set_cell (board g) x y (turn g), last_move := Some (x, y)\<rparr>"
  have "board_at ?g1 x y = Inr (cell ?g1 x y)"
    using assms(2) by (intro board_at_in_bounds) (simp_all add: is_valid_move_def)
  from check_win_returns [OF this, of True]
  obtain w sq where cw: "check_win x y True ?g1 = Inr (w, ?g1\<lparr>winning_sequence := sq\<rparr>)"
    by blast
  show ?thesis
    using assms cw by (intro exI [of _ w] exI [of _ sq]) (simp add: place_piece_def Let_def)
qed

lemma place_block_valid:
  assumes "\<not> game_over g" "is_valid_move g x y"
  shows "place_piece x y sw ''block'' g =
     Inr (Some (True, True),
          (if turn g = CHR ''X''
           then g\<lparr>board := set_cell (board g) x y (CHR ''B''), last_move := Some (x, y),
                  user_blocks_remaining := user_blocks_remaining g - 1\<rparr>
           else g\<lparr>board := set_cell (board g) x y (CHR ''B''), last_move := Some (x, y),
                  ai_blocks_remaining := ai_blocks_remaining g - 1\<rparr>))"
  using assms by (simp add: place_piece_def is_valid_block_def Let_def)

lemma place_other: "mt \<noteq> ''normal'' \<Longrightarrow> mt \<noteq> ''block'' \<Longrightarrow>
  place_piece x y sw mt g = Inr (if game_over g then Some (False, False) else None, g)"
  by (simp add: place_piece_def)

lemma place_game_over: "game_over g \<Longrightarrow> place_piece x y sw mt g = Inr (Some (False, False), g)"
  by (simp add: place_piece_def)

lemma remove_valid:
  assumes "is_valid_remove g x y"
  shows "remove_tile x y sw g =
     (True,
      (if turn g = CHR ''X''
       then g\<lparr>board := set_cell (board g) x y (CHR '' ''),
              user_power_moves_remaining := user_power_moves_remaining g - 1,
              last_removed_tile := Some (x, y),
              turn := (if sw then CHR ''O'' else turn g),
              turn_count := turn_count g + 1\<rparr>
       else g\<lparr>board := set_cell (board g) x y (CHR '' ''),
              ai_power_moves_remaining := ai_power_moves_remaining g - 1,
              last_removed_tile := Some (x, y),
              turn := (if sw then CHR ''X'' else turn g),
              turn_count := turn_count g + 1\<rparr>))"
  using assms by (simp add: remove_tile_def Let_def)

lemma cell_set_cell:
  assumes "wf g" "0 \<le> x" "x < size_g g" "0 \<le> y" "y < size_g g"
  shows "cell (g\<lparr>board := set_cell (board g) x y v\<rparr>) x y = v"
proof -
  have lx: "nat x < length (board g)" using assms by (simp add: wf_def)
  then have "board g ! nat x \<in> set (board g)" by simp
  then have "length (board g ! nat x) = nat (size_g g)"
    using assms(1) by (simp add: wf_def list_all_iff)
  then have ly: "nat y < length (board g ! nat x)" using assms by simp
  show ?thesis using lx ly by (simp add: cell_def set_cell_def)
qed

text \<open>
  Claim C5. When its validity predicate is false (\<open>is_valid_move\<close> for a normal
  placement, \<open>is_valid_block\<close> for a block, \<open>is_valid_remove\<close> for a removal),
  \<open>place_piece\<close>, \<open>block_tile\<close> and \<open>remove_tile\<close> return normally (no
  \<open>IndexError\<close>, also for a coordinate off the board), report failure (\<open>(False,
  False)\<close>, respectively \<open>False\<close>) and leave the whole object as it was.
\<close>

theorem invalid_mutation_is_noop:
  "(\<not> is_valid_move g x y \<longrightarrow>
      place_piece x y switch_turn ''normal'' g = Inr (Some (False, False), g)) \<and>
   (\<not> is_valid_block g x y \<longrightarrow>
      place_piece x y switch_turn ''block'' g = Inr (Some (False, False), g) \<and>
      block_tile x y g = Inr (Some (False, False), g)) \<and>
   (\<not> is_valid_remove g x y \<longrightarrow> remove_tile x y switch_turn g = (False, g))"
  by (simp add: invalid_place invalid_remove block_tile_def is_valid_block_def)

text \<open>The theorem at an occupied cell, at a column off the board and at a negative row.\<close>

theorem invalid_mutation_is_noop_witness:
  "\<not> is_valid_move ex_first_move 5 5 \<and>
   place_piece 5 5 True ''normal'' ex_first_move = Inr (Some (False, False), ex_first_move) \<and>
   \<not> is_valid_block ex_first_move 3 10 \<and>
   place_piece 3 10 True ''block'' ex_first_move = Inr (Some (False, False), ex_first_move) \<and>
   block_tile 3 10 ex_first_move = Inr (Some (False, False), ex_first_move) \<and>
   \<not> is_valid_remove ex_first_move (- 1) 0 \<and>
   remove_tile (- 1) 0 True ex_first_move = (False, ex_first_move)"
proof -
  have a: "\<not> is_valid_move ex_first_move 5 5" by code_simp
  have b: "\<not> is_valid_block ex_first_move 3 10" by code_simp
  have c: "\<not> is_valid_remove ex_first_move (- 1) 0" by code_simp
  show ?thesis
    using a b c
      invalid_mutation_is_noop [of ex_first_move 5 5 True]
      invalid_mutation_is_noop [of ex_first_move 3 10 True]
      invalid_mutation_is_noop [of ex_first_move "- 1" 0 True]
    by blast
qed

lemma place_piece_counters:
  "\<exists>r g'. place_piece x y sw mt g = Inr (r, g') \<and> spent_at_most_one g g'"
proof (cases "game_over g")
  case True
  then show ?thesis by (simp add: place_game_over)
next
  case False
  note go = this
  show ?thesis
  proof (cases "is_valid_move g x y")
    case False
    then show ?thesis using go by (simp add: place_piece_def is_valid_block_def)
  next
    case True
    consider "mt = ''normal''" | "mt = ''block''" | "mt \<noteq> ''normal''" "mt \<noteq> ''block''"
      by blast
    then show ?thesis
    proof cases
      case 1
      from place_normal_valid [OF go True, of sw] obtain w sq where
        "place_piece x y sw ''normal'' g =
     Inr (Some (True, w),
          g\<lparr>board := set_cell (board g) x y (turn g), last_move := Some (x, y),
            winning_sequence := sq, game_over := w,
            turn := (if \<not> w \<and> sw then (if turn g = CHR ''X'' then CHR ''O'' else CHR ''X'') else turn g),
            turn_count := turn_count g + 1\<rparr>)" by blast
      then show ?thesis using 1 by simp
    next
      case 2
      then show ?thesis using place_block_valid [OF go True, of sw] by simp
    next
      case 3
      then show ?thesis by (simp add: place_other)
    qed
  qed
qed

lemma remove_tile_counters:
  "\<exists>r g'. remove_tile x y sw g = (r, g') \<and> spent_at_most_one g g'"
proof (cases "is_valid_remove g x y")
  case True
  then show ?thesis by (auto simp: remove_valid)
next
  case False
  then show ?thesis by (auto simp: invalid_remove)
qed

text \<open>
  Claim C8. Whatever the state, the coordinate, \<open>switch_turn\<close> and \<open>move_type\<close>,
  \<open>place_piece\<close>, \<open>block_tile\<close> and \<open>remove_tile\<close> return normally, and in the
  state they leave no counter (\<open>blocks_remaining\<close>, \<open>power_moves_remaining\<close> of
  either player) is larger than before: all four are unchanged, or exactly one is
  smaller by one.
\<close>

theorem counters_never_increase:
  "(\<exists>r g'. place_piece x y switch_turn move_type g = Inr (r, g') \<and> spent_at_most_one g g') \<and>
   (\<exists>r g'. block_tile x y g = Inr (r, g') \<and> spent_at_most_one g g') \<and>
   (\<exists>r g'. remove_tile x y switch_turn g = (r, g') \<and> spent_at_most_one g g')"
  unfolding block_tile_def
  by (intro conjI place_piece_counters remove_tile_counters)

text \<open>The theorem at a block by the engine on the example position.\<close>

theorem counters_never_increase_witness:
  "(\<exists>r g'. place_piece 0 0 True ''block'' ex_first_move = Inr (r, g') \<and>
            spent_at_most_one ex_first_move g') \<and>
   (\<exists>r g'. block_tile 0 0 ex_first_move = Inr (r, g') \<and> spent_at_most_one ex_first_move g') \<and>
   (\<exists>r g'. remove_tile 0 0 True ex_first_move = (r, g') \<and> spent_at_most_one ex_first_move g')"
  by (rule counters_never_increase)

lemma wf_init: "0 \<le> n \<Longrightarrow> wf (init n t)"
  by (simp add: wf_def init_def list_all_iff)

lemma wf_ex_first_move: "wf ex_first_move"
  by code_simp

text \<open>
  Claim C9. Once \<open>game_over\<close> is set, \<open>place_piece\<close> returns \<open>(False, False)\<close>
  and changes nothing, whatever the coordinate and the move type. \<open>remove_tile\<close> does
  not look at \<open>game_over\<close>: on a cell that holds the opponent's piece it still empties
  the cell, takes one power move from the player to move, records
  \<open>last_removed_tile\<close>, adds one to \<open>turn_count\<close> and returns \<open>True\<close>.
\<close>

theorem game_over_guards_place_not_remove:
  assumes "game_over g"
  shows "place_piece x y switch_turn move_type g = Inr (Some (False, False), g) \<and>
         (is_valid_remove g x y \<longrightarrow>
            (\<exists>g'. remove_tile x y switch_turn g = (True, g') \<and>
                  board g' = set_cell (board g) x y (CHR '' '') \<and>
                  (wf g \<longrightarrow> cell g' x y = CHR '' '') \<and>
                  (if turn g = CHR ''X''
                   then user_power_moves_remaining g' = user_power_moves_remaining g - 1 \<and>
                        ai_power_moves_remaining g' = ai_power_moves_remaining g
                   else ai_power_moves_remaining g' = ai_power_moves_remaining g - 1 \<and>
                        user_power_moves_remaining g' = user_power_moves_remaining g) \<and>
                  last_removed_tile g' = Some (x, y) \<and>
                  turn_count g' = turn_count g + 1))"
proof (intro conjI impI)
  show "place_piece x y switch_turn move_type g = Inr (Some (False, False), g)"
    using assms by (rule place_game_over)
next
  assume v: "is_valid_remove g x y"
  then have b: "0 \<le> x" "x < size_g g" "0 \<le> y" "y < size_g g"
    by (simp_all add: is_valid_remove_def)
  have c: "wf g \<Longrightarrow> cell (g\<lparr>board := set_cell (board g) x y (CHR '' '')\<rparr>) x y = CHR '' ''"
    by (rule cell_set_cell [OF _ b])
  show "\<exists>g'. remove_tile x y switch_turn g = (True, g') \<and>
                  board g' = set_cell (board g) x y (CHR '' '') \<and>
                  (wf g \<longrightarrow> cell g' x y = CHR '' '') \<and>
                  (if turn g = CHR ''X''
                   then user_power_moves_remaining g' = user_power_moves_remaining g - 1 \<and>
                        ai_power_moves_remaining g' = ai_power_moves_remaining g
                   else ai_power_moves_remaining g' = ai_power_moves_remaining g - 1 \<and>
                        user_power_moves_remaining g' = user_power_moves_remaining g) \<and>
                  last_removed_tile g' = Some (x, y) \<and>
                  turn_count g' = turn_count g + 1"
    using c by (auto simp: remove_valid [OF v] cell_def)
qed

text \<open>The theorem on a finished game whose centre holds the human's piece, the engine
  to move: the empty cell next to it is refused, the removal goes through.\<close>

theorem game_over_guards_place_not_remove_witness:
  "game_over ex_over \<and> is_valid_move ex_over 4 4 \<and> is_valid_remove ex_over 5 5 \<and> wf ex_over \<and>
   place_piece 4 4 True ''normal'' ex_over = Inr (Some (False, False), ex_over) \<and>
   (\<exists>g'. remove_tile 5 5 False ex_over = (True, g') \<and>
         board g' = set_cell (board ex_over) 5 5 (CHR '' '') \<and>
         cell g' 5 5 = CHR '' '' \<and>
         ai_power_moves_remaining g' = ai_power_moves_remaining ex_over - 1 \<and>
         user_power_moves_remaining g' = user_power_moves_remaining ex_over \<and>
         last_removed_tile g' = Some (5, 5) \<and>
         turn_count g' = turn_count ex_over + 1)"
proof -
  have a: "game_over ex_over" by code_simp
  have b: "is_valid_move ex_over 4 4" by code_simp
  have c: "is_valid_remove ex_over 5 5" by code_simp
  have d: "wf ex_over" by code_simp
  have t: "turn ex_over \<noteq> CHR ''X''" by code_simp
  show ?thesis
    using a b c d t
      game_over_guards_place_not_remove [OF a, of 4 4 True "''normal''"]
      game_over_guards_place_not_remove [OF a, of 5 5 False]
    by auto
qed

text \<open>
  Claim C10. A successful normal \<open>place_piece\<close> and a successful \<open>remove_tile\<close> add
  exactly one to \<open>turn_count\<close>. A successful block (\<open>place_piece\<close> in block mode, or
  \<open>block_tile\<close>) leaves \<open>turn_count\<close> as it was, leaves the turn with the same
  player, and overwrites \<open>last_move\<close> with the blocked coordinate.
\<close>

theorem turn_count_and_last_move_effects:
  "(place_piece x y switch_turn ''normal'' g = Inr (Some (True, w), g') \<longrightarrow>
      turn_count g' = turn_count g + 1) \<and>
   (remove_tile x y switch_turn g = (True, g') \<longrightarrow> turn_count g' = turn_count g + 1) \<and>
   (place_piece x y switch_turn ''block'' g = Inr (Some (True, a), g') \<longrightarrow>
      turn_count g' = turn_count g \<and> last_move g' = Some (x, y) \<and> turn g' = turn g) \<and>
   (block_tile x y g = Inr (Some (True, a), g') \<longrightarrow>
      turn_count g' = turn_count g \<and> last_move g' = Some (x, y) \<and> turn g' = turn g)"
proof -
  have n: "turn_count g' = turn_count g + 1"
    if h: "place_piece x y switch_turn ''normal'' g = Inr (Some (True, w), g')"
  proof -
    have go: "\<not> game_over g" using h by (auto simp: place_game_over)
    have v: "is_valid_move g x y"
      by (rule ccontr) (use h in \<open>simp add: invalid_place\<close>)
    from place_normal_valid [OF go v, of switch_turn] h show ?thesis by auto
  qed
  have r: "turn_count g' = turn_count g + 1" if h: "remove_tile x y switch_turn g = (True, g')"
  proof -
    have v: "is_valid_remove g x y" using h by (auto simp: remove_tile_def split: if_splits)
    from remove_valid [OF v, of switch_turn] h show ?thesis by (auto split: if_splits)
  qed
  have b: "turn_count g' = turn_count g \<and> last_move g' = Some (x, y) \<and> turn g' = turn g"
    if h: "place_piece x y sw ''block'' g = Inr (Some (True, a), g')" for sw
  proof -
    have go: "\<not> game_over g" using h by (auto simp: place_game_over)
    have v: "is_valid_move g x y"
      by (rule ccontr) (use h in \<open>simp add: invalid_place\<close>)
    from place_block_valid [OF go v, of sw] h show ?thesis by (auto split: if_splits)
  qed
  show ?thesis using n r b by (auto simp: block_tile_def)
qed

text \<open>The theorem at the opening move, and at a removal and a block that answer it.\<close>

theorem turn_count_and_last_move_effects_witness:
  "place_piece 5 5 True ''normal'' (init 10 5) = Inr (Some (True, False), ex_first_move) \<and>
   turn_count ex_first_move = turn_count (init 10 5) + 1 \<and>
   remove_tile 5 5 True ex_first_move = (True, ex_removed) \<and>
   turn_count ex_removed = turn_count ex_first_move + 1 \<and>
   place_piece 0 0 True ''block'' ex_first_move = Inr (Some (True, True), ex_blocked) \<and>
   block_tile 0 0 ex_first_move = Inr (Some (True, True), ex_blocked) \<and>
   turn_count ex_blocked = turn_count ex_first_move \<and>
   last_move ex_blocked = Some (0, 0) \<and> turn ex_blocked = turn ex_first_move"
proof -
  have p: "place_piece 5 5 True ''normal'' (init 10 5) = Inr (Some (True, False), ex_first_move)"
    by code_simp
  have r: "remove_tile 5 5 True ex_first_move = (True, ex_removed)"
    by code_simp
  have b: "place_piece 0 0 True ''block'' ex_first_move = Inr (Some (True, True), ex_blocked)"
    by code_simp
  have t: "block_tile 0 0 ex_first_move = Inr (Some (True, True), ex_blocked)"
    by code_simp
  show ?thesis
    using p r b t
      turn_count_and_last_move_effects [of 5 5 True "init 10 5" False ex_first_move]
      turn_count_and_last_move_effects [of 5 5 True ex_first_move _ ex_removed]
      turn_count_and_last_move_effects [of 0 0 True ex_first_move _ ex_blocked True]
    by blast
qed

section \<open>The search: trial moves, enumeration and the loops\<close>

lemma ex_cornered_reached: "ex_cornered_play = Inr ex_cornered"
  by code_simp

lemma set_cell_restore: "set_cell (set_cell b x y v) x y (b ! nat x ! nat y) = b"
proof (cases "nat x < length b")
  case True
  then show ?thesis by (simp add: set_cell_def)
next
  case False
  then have "length b \<le> nat x" by simp
  then show ?thesis by (simp add: set_cell_def list_update_beyond)
qed

lemma undo_apply_place:
  "cell g x y = CHR '' '' \<Longrightarrow>
   undo_place x y (apply_place mx x y g) = g\<lparr>last_move := Some (x, y)\<rparr>"
  using set_cell_restore [of "board g" x y "if mx then CHR ''O'' else CHR ''X''"]
  by (simp add: undo_place_def apply_place_def cell_def)

lemma undo_apply_block:
  "cell g x y = CHR '' '' \<Longrightarrow> undo_block mx x y (apply_block mx x y g) = g"
  using set_cell_restore [of "board g" x y "CHR ''B''"]
  by (simp add: undo_block_def apply_block_def cell_def)

lemma undo_apply_remove:
  "undo_remove mx x y (cell g x y) (apply_remove mx x y g) = g"
  using set_cell_restore [of "board g" x y "CHR '' ''"]
  by (simp add: undo_remove_def apply_remove_def cell_def)

text \<open>
  Claim C1, as amended. For a trial Place, Block or Remove of the search loops, where the
  cell of a Place or a Block is empty (as it is for every candidate enumerated from the
  neighbourhood of a piece or from the empty cells), the undo applied to the applied
  state gives back the grid, the four counters, \<open>turn_count\<close>, \<open>last_removed_tile\<close>
  and every other attribute as they were. \<open>last_move\<close> is the exception: a Place leaves
  its own coordinate there, and the loop body then sets it to \<open>None\<close> whatever the
  move was, so it is cleared, not restored.
\<close>

theorem trial_undo_restores_all_but_last_move:
  assumes "action = ''place'' \<or> action = ''block'' \<or> action = ''remove''"
      and "action \<noteq> ''remove'' \<longrightarrow> cell g x y = CHR '' ''"
  shows "trial_undo mx (action, x, y) (cell g x y) (trial_apply mx (action, x, y) g)
           = g\<lparr>last_move := (if action = ''place'' then Some (x, y) else last_move g)\<rparr> \<and>
         (trial_undo mx (action, x, y) (cell g x y) (trial_apply mx (action, x, y) g))
           \<lparr>last_move := None\<rparr> = g\<lparr>last_move := None\<rparr>"
  using assms
  by (auto simp: trial_undo_def trial_apply_def undo_apply_place undo_apply_block
        undo_apply_remove)

text \<open>
  Claim C1 as stated fails on \<open>last_move\<close>: one pass of the maximizing loop (apply,
  recursive call at depth 0, undo, clear) over the example position, whose
  \<open>last_move\<close> is the human's opening move, returns the position with
  \<open>last_move = None\<close>.
\<close>

theorem search_trial_clears_last_move:
  "max_loop 0 [(''place'', 4, 4)] NegInf NegInf PosInf ex_first_move
     = Inr (Fin 0, ex_first_move\<lparr>last_move := None\<rparr>) \<and>
   last_move ex_first_move = Some (5, 5) \<and>
   last_move (ex_first_move\<lparr>last_move := None\<rparr>) \<noteq> last_move ex_first_move"
  by code_simp

text \<open>The amended claim at the engine's trial placement next to the opening move.\<close>

theorem trial_undo_restores_all_but_last_move_witness:
  "cell ex_first_move 4 4 = CHR '' '' \<and>
   trial_undo True (''place'', 4, 4) (cell ex_first_move 4 4)
       (trial_apply True (''place'', 4, 4) ex_first_move)
     = ex_first_move\<lparr>last_move := Some (4, 4)\<rparr> \<and>
   (trial_undo True (''place'', 4, 4) (cell ex_first_move 4 4)
       (trial_apply True (''place'', 4, 4) ex_first_move))\<lparr>last_move := None\<rparr>
     = ex_first_move\<lparr>last_move := None\<rparr>"
proof -
  have c: "cell ex_first_move 4 4 = CHR '' ''" by code_simp
  show ?thesis
    using c trial_undo_restores_all_but_last_move [of "''place''" ex_first_move 4 4 True]
    by simp
qed

lemma max_trial_block:
  "max_trial d alpha beta g (''block'', x, y) =
     (if last_removed_tile g = Some (x, y) \<or> ai_blocks_remaining g \<le> 0 then None
      else Some (case minimax d alpha beta False (apply_block True x y g) of
                   Inl e \<Rightarrow> Inl e
                 | Inr (eval, g') \<Rightarrow> Inr (eval, undo_block True x y g')))"
  by (simp add: max_trial.simps skips_def known_action_def trial_apply_def trial_undo_def
        split: sum.split prod.split)

lemma min_trial_block:
  "min_trial d alpha beta g (''block'', x, y) =
     (if user_blocks_remaining g \<le> 0 then None
      else Some (case minimax d alpha beta True (apply_block False x y g) of
                   Inl e \<Rightarrow> Inl e
                 | Inr (eval, g') \<Rightarrow> Inr (eval, undo_block False x y g')))"
  by (simp add: min_trial.simps skips_def known_action_def trial_apply_def trial_undo_def
        split: sum.split prod.split)

text \<open>
  Claim C2, as amended. A Block tried at a node of depth \<open>d + 1\<close> is searched by the
  recursive call at depth \<open>d\<close> with the role flipped, like a Place or a Remove: the
  maximizing branch calls \<open>minimax\<close> with \<open>maximizing_player = False\<close>, the minimizing
  branch with \<open>True\<close>, for every state, depth and window.
\<close>

theorem block_trial_flips_role:
  "max_trial d alpha beta g (''block'', x, y) =
     (if last_removed_tile g = Some (x, y) \<or> ai_blocks_remaining g \<le> 0 then None
      else Some (case minimax d alpha beta False (apply_block True x y g) of
                   Inl e \<Rightarrow> Inl e
                 | Inr (eval, g') \<Rightarrow> Inr (eval, undo_block True x y g'))) \<and>
   min_trial d alpha beta g (''block'', x, y) =
     (if user_blocks_remaining g \<le> 0 then None
      else Some (case minimax d alpha beta True (apply_block False x y g) of
                   Inl e \<Rightarrow> Inl e
                 | Inr (eval, g') \<Rightarrow> Inr (eval, undo_block False x y g')))"
  by (simp only: max_trial_block min_trial_block simp_thms)

text \<open>The theorem at a Block of the corner in the example position, at depth 2.\<close>

theorem block_trial_flips_role_witness:
  "max_trial 1 NegInf PosInf ex_first_move (''block'', 0, 0) =
     Some (case minimax 1 NegInf PosInf False (apply_block True 0 0 ex_first_move) of
             Inl e \<Rightarrow> Inl e
           | Inr (eval, g') \<Rightarrow> Inr (eval, undo_block True 0 0 g')) \<and>
   min_trial 1 NegInf PosInf ex_first_move (''block'', 0, 0) =
     Some (case minimax 1 NegInf PosInf True (apply_block False 0 0 ex_first_move) of
             Inl e \<Rightarrow> Inl e
           | Inr (eval, g') \<Rightarrow> Inr (eval, undo_block False 0 0 g'))"
proof -
  have a: "last_removed_tile ex_first_move = None" "ai_blocks_remaining ex_first_move = 1"
    "user_blocks_remaining ex_first_move = 1"
    by (simp_all add: ex_first_move_def init_def)
  show ?thesis
    using block_trial_flips_role [of 1 NegInf PosInf ex_first_move 0 0]
    by (simp add: a)
qed

text \<open>
  Claim C2 as stated fails: at a maximizing node of depth 2 on the example position the
  Block of the corner is scored \<open>-10\<close>, the value of the position after the block
  searched as a minimizing node; searched with the role kept it would be \<open>0\<close>.
\<close>

theorem block_trial_same_role_counterexample:
  "map_option (map_sum id fst) (max_trial 1 NegInf PosInf ex_first_move (''block'', 0, 0))
     = Some (Inr (Fin (- 10))) \<and>
   map_sum id fst (minimax 1 NegInf PosInf False (apply_block True 0 0 ex_first_move))
     = Inr (Fin (- 10)) \<and>
   map_sum id fst (minimax 1 NegInf PosInf True (apply_block True 0 0 ex_first_move))
     = Inr (Fin 0)"
  by code_simp

lemma set_py_range: "x \<in> set (py_range n) \<longleftrightarrow> 0 \<le> x \<and> x < n"
  by (auto simp: py_range_def)

lemma mem_cells_holding:
  "(a, x, y) \<in> set (cells_holding g c a') \<longleftrightarrow>
     a = a' \<and> 0 \<le> x \<and> x < size_g g \<and> 0 \<le> y \<and> y < size_g g \<and> cell g x y = c"
  by (auto simp: cells_holding_def set_py_range)

lemma neighbour_places_action: "list_all (\<lambda>m. fst m = ''place'') (neighbour_places g x y)"
  by (simp add: neighbour_places_def)

lemma place_candidates_action: "m \<in> set (place_candidates g) \<Longrightarrow> fst m = ''place''"
proof -
  assume "m \<in> set (place_candidates g)"
  then obtain x y where "m \<in> set (neighbour_places g x y)"
    unfolding place_candidates_def by (auto split: if_splits)
  then show ?thesis using neighbour_places_action [of g x y] by (simp add: list_all_iff)
qed

lemma remove_not_place_candidate: "(''remove'', x, y) \<notin> set (place_candidates g)"
  using place_candidates_action [of "(''remove'', x, y)" g] by auto

lemma mem_get_valid_moves_remove:
  "(''remove'', x, y) \<in> set (get_valid_moves include_blocks True g) \<longleftrightarrow>
     0 \<le> x \<and> x < size_g g \<and> 0 \<le> y \<and> y < size_g g \<and>
     ((turn g = CHR ''X'' \<and> 0 < user_power_moves_remaining g \<and> cell g x y = CHR ''O'') \<or>
      (turn g = CHR ''O'' \<and> 0 < ai_power_moves_remaining g \<and> cell g x y = CHR ''X''))"
  by (auto simp: get_valid_moves_def Let_def mem_cells_holding remove_not_place_candidate)

lemma max_trial_skips: "skips True g m \<Longrightarrow> max_trial d alpha beta g m = None"
  by (simp add: max_trial.simps)

lemma min_trial_skips: "skips False g m \<Longrightarrow> min_trial d alpha beta g m = None"
  by (simp add: min_trial.simps)

lemma skips_early_remove: "turn_count g < 10 \<Longrightarrow> skips True g (''remove'', x, y)"
  by (simp add: skips_def)

text \<open>
  Claim C3, as amended. \<open>get_valid_moves(include_blocks, include_removes=True)\<close> lists
  a Remove for exactly the cells of the opponent of the player to move, whenever that
  player has a power move left: \<open>turn_count\<close> plays no part. The guard on
  \<open>turn_count < 10\<close> is in the engine's loops: the maximizing branch of \<open>minimax\<close>
  and \<open>ai_move_decision\<close> skip every Remove while \<open>turn_count < 10\<close>.
\<close>

theorem early_remove_is_listed_but_skipped:
  "((''remove'', x, y) \<in> set (get_valid_moves include_blocks True g) \<longleftrightarrow>
      0 \<le> x \<and> x < size_g g \<and> 0 \<le> y \<and> y < size_g g \<and>
      ((turn g = CHR ''X'' \<and> 0 < user_power_moves_remaining g \<and> cell g x y = CHR ''O'') \<or>
       (turn g = CHR ''O'' \<and> 0 < ai_power_moves_remaining g \<and> cell g x y = CHR ''X''))) \<and>
   (turn_count g < 10 \<longrightarrow>
      max_trial d alpha beta g (''remove'', x, y) = None \<and>
      max_loop d ((''remove'', x, y) # ms) max_eval alpha beta g
        = max_loop d ms max_eval alpha beta g \<and>
      decision_loop d ((''remove'', x, y) # ms) best_score best_move g
        = decision_loop d ms best_score best_move g)"
  by (simp add: mem_get_valid_moves_remove max_trial_skips skips_early_remove)

text \<open>
  Claim C3 as stated fails: after the opening move \<open>turn_count\<close> is 1 and the list
  holds the Remove of the human's piece.
\<close>

theorem early_remove_listed_counterexample:
  "turn_count ex_first_move < 10 \<and>
   (''remove'', 5, 5) \<in> set (get_valid_moves False True ex_first_move) \<and>
   (''remove'', 5, 5) \<in> set (get_valid_moves True True ex_first_move)"
  by code_simp

text \<open>The amended claim on the example position.\<close>

theorem early_remove_is_listed_but_skipped_witness:
  "turn_count ex_first_move < 10 \<and>
   (''remove'', 5, 5) \<in> set (get_valid_moves True True ex_first_move) \<and>
   max_trial 2 NegInf PosInf ex_first_move (''remove'', 5, 5) = None \<and>
   max_loop 2 [(''remove'', 5, 5)] NegInf NegInf PosInf ex_first_move
     = max_loop 2 [] NegInf NegInf PosInf ex_first_move \<and>
   decision_loop 2 [(''remove'', 5, 5)] NegInf None ex_first_move
     = decision_loop 2 [] NegInf None ex_first_move"
proof -
  have t: "turn_count ex_first_move < 10" by (simp add: ex_first_move_def)
  have c: "0 \<le> (5::int) \<and> 5 < size_g ex_first_move \<and> turn ex_first_move = CHR ''O'' \<and>
           0 < ai_power_moves_remaining ex_first_move \<and> cell ex_first_move 5 5 = CHR ''X''"
    by code_simp
  from early_remove_is_listed_but_skipped
         [of 5 5 True ex_first_move 2 NegInf PosInf "[]" NegInf NegInf None]
  have "(''remove'', 5, 5) \<in> set (get_valid_moves True True ex_first_move)"
    and "max_trial 2 NegInf PosInf ex_first_move (''remove'', 5, 5) = None"
    and "max_loop 2 [(''remove'', 5, 5)] NegInf NegInf PosInf ex_first_move
           = max_loop 2 [] NegInf NegInf PosInf ex_first_move"
    and "decision_loop 2 [(''remove'', 5, 5)] NegInf None ex_first_move
           = decision_loop 2 [] NegInf None ex_first_move"
    using t c by blast+
  with t show ?thesis by blast
qed

lemma max_loop_all_skipped:
  "list_all (skips True g) ms \<Longrightarrow> max_loop d ms max_eval alpha beta g = Inr (max_eval, g)"
  by (induction ms) (simp_all add: max_trial_skips)

lemma min_loop_all_skipped:
  "list_all (skips False g) ms \<Longrightarrow> min_loop d ms min_eval alpha beta g = Inr (min_eval, g)"
  by (induction ms) (simp_all add: min_trial_skips)

lemma all_skipped_returns_initial_value:
  assumes "is_terminal g = Inr False"
      and "list_all (skips maximizing g) (get_valid_moves True True g)"
  shows "minimax (Suc d) alpha beta maximizing g
           = Inr (if maximizing then NegInf else PosInf, g)"
proof (cases maximizing)
  case True
  with assms(2) have "max_loop d (get_valid_moves True True g) NegInf alpha beta g = Inr (NegInf, g)"
    by (simp add: max_loop_all_skipped)
  with assms(1) True show ?thesis by simp
next
  case False
  with assms(2) have "min_loop d (get_valid_moves True True g) PosInf alpha beta g = Inr (PosInf, g)"
    by (simp add: min_loop_all_skipped)
  with assms(1) False show ?thesis by simp
qed

text \<open>
  Claim C4 as stated fails: in the cornered position the only Place candidate is the
  cell of \<open>last_removed_tile\<close> and the only other candidate is a Remove at
  \<open>turn_count = 3\<close>; the maximizing search explores nothing and returns
  \<open>float('-inf')\<close>, not 0.
\<close>

theorem nothing_explored_counterexample:
  "is_terminal ex_cornered = Inr False \<and>
   get_valid_moves True True ex_cornered = [(''place'', 1, 1), (''remove'', 0, 0)] \<and>
   list_all (skips True ex_cornered) (get_valid_moves True True ex_cornered) \<and>
   minimax 1 NegInf PosInf True ex_cornered = Inr (NegInf, ex_cornered) \<and>
   NegInf \<noteq> Fin 0"
  by code_simp

lemma get_valid_moves_has_place:
  "\<exists>x y. (''place'', x, y) \<in> set (get_valid_moves include_blocks include_removes g)"
proof (cases "place_candidates g = []")
  case True
  then show ?thesis by (auto simp: get_valid_moves_def Let_def)
next
  case False
  then obtain m where m: "m \<in> set (place_candidates g)"
    by (cases "place_candidates g") auto
  then have "fst m = ''place''" by (rule place_candidates_action)
  then obtain x y where "m = (''place'', x, y)" by (cases m) auto
  with m False show ?thesis by (auto simp: get_valid_moves_def Let_def)
qed

lemma min_branch_explores_a_place:
  "\<not> list_all (skips False g) (get_valid_moves True True g)"
proof -
  obtain x y where "(''place'', x, y) \<in> set (get_valid_moves True True g)"
    using get_valid_moves_has_place by blast
  moreover have "\<not> skips False g (''place'', x, y)" by (simp add: skips_def)
  ultimately show ?thesis by (auto simp: list_all_iff)
qed

text \<open>
  Claim C4, as amended. At depth at least 1 on a position that is not terminal, when
  every candidate of the maximizing loop is skipped, \<open>minimax\<close> returns
  \<open>float('-inf')\<close>, the value \<open>max_eval\<close> starts from, and leaves the object as it
  was. In the minimizing loop the case does not arise: the list always holds a Place and
  that loop never skips a Place.
\<close>

theorem nothing_explored_returns_minus_infinity:
  "(is_terminal g = Inr False \<and> list_all (skips True g) (get_valid_moves True True g) \<longrightarrow>
      minimax (Suc d) alpha beta True g = Inr (NegInf, g)) \<and>
   \<not> list_all (skips False g) (get_valid_moves True True g)"
  using all_skipped_returns_initial_value [of g True d alpha beta] min_branch_explores_a_place [of g]
  by simp

text \<open>The amended claim on the cornered position, at depth 3 with a narrow window.\<close>

theorem nothing_explored_returns_minus_infinity_witness:
  "is_terminal ex_cornered = Inr False \<and>
   list_all (skips True ex_cornered) (get_valid_moves True True ex_cornered) \<and>
   minimax (Suc 2) (Fin 5) (Fin 20) True ex_cornered = Inr (NegInf, ex_cornered)"
proof -
  have a: "is_terminal ex_cornered = Inr False" by code_simp
  have b: "list_all (skips True ex_cornered) (get_valid_moves True True ex_cornered)"
    by code_simp
  from nothing_explored_returns_minus_infinity [of ex_cornered 2 "Fin 5" "Fin 20"] a b
  have "minimax (Suc 2) (Fin 5) (Fin 20) True ex_cornered = Inr (NegInf, ex_cornered)"
    by blast
  with a b show ?thesis by (intro conjI)
qed

section \<open>Win detection and contiguous runs\<close>

lemma contiguous_run_iff:
  "contiguous_run g x y dx dy a b \<longleftrightarrow>
     (\<forall>k. - a \<le> k \<and> k \<le> b \<longrightarrow>
        in_bounds g (x + k * dx) (y + k * dy) \<and> cell g (x + k * dx) (y + k * dy) = cell g x y)"
  by (auto simp: contiguous_run_def list_all_iff)

lemma win_scan_sound:
  "fst (win_scan g p nx ny sx sy (c, sq)) = r \<Longrightarrow>
   c \<le> r \<and> (\<forall>k. 0 \<le> k \<and> k < r - c \<longrightarrow>
              in_bounds g (nx + k * sx) (ny + k * sy) \<and> cell g (nx + k * sx) (ny + k * sy) = p)"
proof (induction g p nx ny sx sy "(c, sq)" arbitrary: c sq r rule: win_scan.induct)
  case (1 g player nx ny dx dy count sequence)
  let ?guard = "(dx \<noteq> 0 \<or> dy \<noteq> 0) \<and> 0 \<le> nx \<and> nx < size_g g \<and> 0 \<le> ny \<and> ny < size_g g \<and>
                cell g nx ny = player"
  show ?case
  proof (cases ?guard)
    case False
    have "win_scan g player nx ny dx dy (count, sequence) =
        (if ?guard
         then win_scan g player (nx + dx) (ny + dy) dx dy (count + 1, sequence @ [(nx, ny)])
         else (count, sequence))"
      by (rule win_scan.simps)
    also have "\<dots> = (count, sequence)" using False by (rule if_not_P)
    finally have "win_scan g player nx ny dx dy (count, sequence) = (count, sequence)" .
    with "1.prems" show ?thesis by auto
  next
    case True
    have "win_scan g player nx ny dx dy (count, sequence) =
        (if ?guard
         then win_scan g player (nx + dx) (ny + dy) dx dy (count + 1, sequence @ [(nx, ny)])
         else (count, sequence))"
      by (rule win_scan.simps)
    also have "\<dots> = win_scan g player (nx + dx) (ny + dy) dx dy (count + 1, sequence @ [(nx, ny)])"
      using True by (rule if_P)
    finally have eq: "win_scan g player nx ny dx dy (count, sequence) =
        win_scan g player (nx + dx) (ny + dy) dx dy (count + 1, sequence @ [(nx, ny)])" .
    with "1.prems" have "fst (win_scan g player (nx + dx) (ny + dy) dx dy
        (count + 1, sequence @ [(nx, ny)])) = r" by simp
    from "1.hyps" [OF True this]
    have ih: "count + 1 \<le> r"
      "\<And>k. 0 \<le> k \<Longrightarrow> k < r - (count + 1) \<Longrightarrow>
         in_bounds g (nx + dx + k * dx) (ny + dy + k * dy) \<and>
         cell g (nx + dx + k * dx) (ny + dy + k * dy) = player"
      by auto
    have "in_bounds g (nx + k * dx) (ny + k * dy) \<and> cell g (nx + k * dx) (ny + k * dy) = player"
      if k: "0 \<le> k" "k < r - count" for k
    proof (cases "k = 0")
      case True
      with \<open>?guard\<close> show ?thesis by (simp add: in_bounds_def)
    next
      case False
      with k have "0 \<le> k - 1" "k - 1 < r - (count + 1)" by auto
      from ih(2) [OF this] show ?thesis by (simp add: algebra_simps)
    qed
    with ih(1) show ?thesis by auto
  qed
qed

lemma win_scan_ge:
  assumes "sx \<noteq> 0 \<or> sy \<noteq> 0"
      and "\<forall>k. 0 \<le> k \<and> k < int n \<longrightarrow>
             in_bounds g (nx + k * sx) (ny + k * sy) \<and> cell g (nx + k * sx) (ny + k * sy) = p"
  shows "c + int n \<le> fst (win_scan g p nx ny sx sy (c, sq))"
  using assms(2)
proof (induction n arbitrary: nx ny c sq)
  case 0
  then show ?case using win_scan_sound [of g p nx ny sx sy c sq, OF refl] by simp
next
  case (Suc n)
  from Suc.prems have g0: "in_bounds g nx ny \<and> cell g nx ny = p"
    by (metis add.right_neutral mult_zero_left of_nat_0_le_iff of_nat_Suc order_refl zero_less_Suc of_nat_0_less_iff)
  then have eq: "win_scan g p nx ny sx sy (c, sq) =
        win_scan g p (nx + sx) (ny + sy) sx sy (c + 1, sq @ [(nx, ny)])"
    using assms(1) by (subst win_scan.simps) (simp add: in_bounds_def)
  have "\<forall>k. 0 \<le> k \<and> k < int n \<longrightarrow>
          in_bounds g (nx + sx + k * sx) (ny + sy + k * sy) \<and>
          cell g (nx + sx + k * sx) (ny + sy + k * sy) = p"
  proof (intro allI impI)
    fix k :: int assume "0 \<le> k \<and> k < int n"
    then have "0 \<le> k + 1 \<and> k + 1 < int (Suc n)" by simp
    with Suc.prems have "in_bounds g (nx + (k + 1) * sx) (ny + (k + 1) * sy) \<and>
          cell g (nx + (k + 1) * sx) (ny + (k + 1) * sy) = p" by blast
    then show "in_bounds g (nx + sx + k * sx) (ny + sy + k * sy) \<and>
          cell g (nx + sx + k * sx) (ny + sy + k * sy) = p" by (simp add: algebra_simps)
  qed
  from Suc.IH [OF this, of "c + 1" "sq @ [(nx, ny)]"] eq show ?case by simp
qed

lemma line_count_run:
  assumes "in_bounds g x y"
  shows "\<exists>a b. 0 \<le> a \<and> 0 \<le> b \<and> line_count g x y (cell g x y) dx dy = a + b + 1 \<and>
               contiguous_run g x y dx dy a b"
proof -
  let ?p = "cell g x y"
  obtain c1 s1 where acc1: "win_scan g ?p (x + dx) (y + dy) dx dy (1, [(x, y)]) = (c1, s1)"
    by (cases "win_scan g ?p (x + dx) (y + dy) dx dy (1, [(x, y)])")
  obtain c2 s2 where acc2: "win_scan g ?p (x - dx) (y - dy) (- dx) (- dy) (c1, s1) = (c2, s2)"
    by (cases "win_scan g ?p (x - dx) (y - dy) (- dx) (- dy) (c1, s1)")
  from win_scan_sound [of g ?p "x + dx" "y + dy" dx dy 1 "[(x, y)]" c1] acc1
  have f: "1 \<le> c1"
    "\<And>k. 0 \<le> k \<Longrightarrow> k < c1 - 1 \<Longrightarrow>
       in_bounds g (x + dx + k * dx) (y + dy + k * dy) \<and>
       cell g (x + dx + k * dx) (y + dy + k * dy) = ?p"
    by auto
  from win_scan_sound [of g ?p "x - dx" "y - dy" "- dx" "- dy" c1 s1 c2] acc2
  have b: "c1 \<le> c2"
    "\<And>k. 0 \<le> k \<Longrightarrow> k < c2 - c1 \<Longrightarrow>
       in_bounds g (x - dx + k * (- dx)) (y - dy + k * (- dy)) \<and>
       cell g (x - dx + k * (- dx)) (y - dy + k * (- dy)) = ?p"
    by auto
  have run: "in_bounds g (x + k * dx) (y + k * dy) \<and> cell g (x + k * dx) (y + k * dy) = ?p"
    if k: "- (c2 - c1) \<le> k" "k \<le> c1 - 1" for k
  proof -
    consider "k = 0" | "0 < k" | "k < 0" by linarith
    then show ?thesis
    proof cases
      case 1
      with assms show ?thesis by simp
    next
      case 2
      with k have "0 \<le> k - 1" "k - 1 < c1 - 1" by auto
      from f(2) [OF this] show ?thesis by (simp add: algebra_simps)
    next
      case 3
      with k have "0 \<le> - k - 1" "- k - 1 < c2 - c1" by auto
      from b(2) [OF this] show ?thesis by (simp add: algebra_simps)
    qed
  qed
  have "line_count g x y ?p dx dy = (c2 - c1) + (c1 - 1) + 1"
    by (simp add: line_count_def acc1 acc2)
  moreover have "contiguous_run g x y dx dy (c2 - c1) (c1 - 1)"
    using run by (simp add: contiguous_run_iff)
  ultimately show ?thesis using f(1) b(1)
    by (intro exI [of _ "c2 - c1"] exI [of _ "c1 - 1"]) simp
qed

lemma run_line_count:
  assumes "dx \<noteq> 0 \<or> dy \<noteq> 0" "0 \<le> a" "0 \<le> b" "contiguous_run g x y dx dy a b"
  shows "a + b + 1 \<le> line_count g x y (cell g x y) dx dy"
proof -
  let ?p = "cell g x y"
  from assms(4) have run: "\<And>k. - a \<le> k \<Longrightarrow> k \<le> b \<Longrightarrow>
      in_bounds g (x + k * dx) (y + k * dy) \<and> cell g (x + k * dx) (y + k * dy) = ?p"
    by (simp add: contiguous_run_iff)
  obtain c1 s1 where acc1: "win_scan g ?p (x + dx) (y + dy) dx dy (1, [(x, y)]) = (c1, s1)"
    by (cases "win_scan g ?p (x + dx) (y + dy) dx dy (1, [(x, y)])")
  have "\<forall>k. 0 \<le> k \<and> k < int (nat b) \<longrightarrow>
          in_bounds g (x + dx + k * dx) (y + dy + k * dy) \<and>
          cell g (x + dx + k * dx) (y + dy + k * dy) = ?p"
  proof (intro allI impI)
    fix k :: int assume "0 \<le> k \<and> k < int (nat b)"
    with assms(2,3) have "- a \<le> k + 1" "k + 1 \<le> b" by auto
    from run [OF this] show "in_bounds g (x + dx + k * dx) (y + dy + k * dy) \<and>
          cell g (x + dx + k * dx) (y + dy + k * dy) = ?p" by (simp add: algebra_simps)
  qed
  from win_scan_ge [OF assms(1) this, of 1 "[(x, y)]"] acc1 assms(3)
  have c1: "1 + b \<le> c1" by simp
  have "\<forall>k. 0 \<le> k \<and> k < int (nat a) \<longrightarrow>
          in_bounds g (x - dx + k * (- dx)) (y - dy + k * (- dy)) \<and>
          cell g (x - dx + k * (- dx)) (y - dy + k * (- dy)) = ?p"
  proof (intro allI impI)
    fix k :: int assume "0 \<le> k \<and> k < int (nat a)"
    with assms(2,3) have "- a \<le> - k - 1" "- k - 1 \<le> b" by auto
    from run [OF this] show "in_bounds g (x - dx + k * (- dx)) (y - dy + k * (- dy)) \<and>
          cell g (x - dx + k * (- dx)) (y - dy + k * (- dy)) = ?p" by (simp add: algebra_simps)
  qed
  moreover have "- dx \<noteq> 0 \<or> - dy \<noteq> 0" using assms(1) by simp
  ultimately have "c1 + int (nat a) \<le> fst (win_scan g ?p (x - dx) (y - dy) (- dx) (- dy) (c1, s1))"
    by (rule win_scan_ge [rotated])
  with c1 assms(2) show ?thesis by (simp add: line_count_def acc1)
qed

lemma check_dirs_iff:
  "check_dirs g x y player ds \<noteq> None \<longleftrightarrow>
     (\<exists>dx dy. (dx, dy) \<in> set ds \<and> target g \<le> line_count g x y player dx dy)"
proof (induction ds)
  case Nil
  show ?case by simp
next
  case (Cons d ds)
  obtain dx dy where d: "d = (dx, dy)" by (cases d)
  show ?case
  proof (cases "target g \<le> line_count g x y player dx dy")
    case True
    then have "check_dirs g x y player (d # ds) \<noteq> None"
      by (simp add: d Let_def line_count_def)
    with True d show ?thesis by auto
  next
    case False
    then have "check_dirs g x y player (d # ds) = check_dirs g x y player ds"
      by (simp add: d Let_def line_count_def)
    with False d Cons.IH show ?thesis by auto
  qed
qed

lemma directions_nonzero: "(dx, dy) \<in> set directions \<Longrightarrow> dx \<noteq> 0 \<or> dy \<noteq> 0"
  by (auto simp: directions_def)

text \<open>
  Claim C6. For a coordinate on the board \<open>check_win\<close> returns normally, and it returns
  true exactly when the cell holds a piece (neither \<open>'B'\<close> nor \<open>' '\<close>) and belongs,
  along one of the four axes, to a contiguous run of at least \<open>target\<close> cells that
  hold the same piece. So every such run is detected wherever it lies on the board, a run
  is never counted across a cell that holds something else (blocked, empty, or the other
  player), and a blocked or empty cell never wins.
\<close>

theorem check_win_iff_contiguous_run:
  assumes "in_bounds g x y"
  shows "\<exists>w g'. check_win x y update_winning_sequence g = Inr (w, g') \<and>
           (w \<longleftrightarrow> cell g x y \<noteq> CHR ''B'' \<and> cell g x y \<noteq> CHR '' '' \<and>
                 (\<exists>dx dy a b. (dx, dy) \<in> set directions \<and> 0 \<le> a \<and> 0 \<le> b \<and>
                              target g \<le> a + b + 1 \<and> contiguous_run g x y dx dy a b))"
proof -
  let ?p = "cell g x y"
  let ?run = "\<exists>dx dy a b. (dx, dy) \<in> set directions \<and> 0 \<le> a \<and> 0 \<le> b \<and>
                target g \<le> a + b + 1 \<and> contiguous_run g x y dx dy a b"
  have at: "board_at g x y = Inr ?p"
    using assms by (intro board_at_in_bounds) (simp_all add: in_bounds_def)
  have dirs: "check_dirs g x y ?p directions \<noteq> None \<longleftrightarrow> ?run"
  proof
    assume "check_dirs g x y ?p directions \<noteq> None"
    then obtain dx dy where d: "(dx, dy) \<in> set directions"
      "target g \<le> line_count g x y ?p dx dy"
      unfolding check_dirs_iff by blast
    from line_count_run [OF assms, of dx dy] obtain a b where
      "0 \<le> a" "0 \<le> b" "line_count g x y ?p dx dy = a + b + 1" "contiguous_run g x y dx dy a b"
      by blast
    with d show ?run by auto
  next
    assume ?run
    then obtain dx dy a b where r: "(dx, dy) \<in> set directions" "0 \<le> a" "0 \<le> b"
      "target g \<le> a + b + 1" "contiguous_run g x y dx dy a b" by blast
    from run_line_count [OF directions_nonzero [OF r(1)] r(2) r(3) r(5)] r(4)
    have "target g \<le> line_count g x y ?p dx dy" by simp
    with r(1) show "check_dirs g x y ?p directions \<noteq> None"
      unfolding check_dirs_iff by blast
  qed
  show ?thesis
  proof (cases "?p = CHR ''B'' \<or> ?p = CHR '' ''")
    case True
    then have "check_win x y update_winning_sequence g = Inr (False, g)"
      using at by (simp add: check_win_def)
    with True show ?thesis by auto
  next
    case False
    show ?thesis
    proof (cases "check_dirs g x y ?p directions")
      case None
      then have "check_win x y update_winning_sequence g = Inr (False, g)"
        using at False by (simp add: check_win_def)
      moreover from None dirs have "\<not> ?run" by simp
      ultimately show ?thesis by auto
    next
      case (Some sq)
      then have "check_win x y update_winning_sequence g =
          Inr (True, if update_winning_sequence then g\<lparr>winning_sequence := sq\<rparr> else g)"
        using at False by (simp add: check_win_def)
      moreover from Some dirs have ?run by simp
      ultimately show ?thesis using False by auto
    qed
  qed
qed

text \<open>The theorem on both examples: the fifth piece of the row wins through the run to
  its left; with the blocked cell in the row the same coordinate does not win, so no run
  of five passes through it.\<close>

theorem check_win_iff_contiguous_run_witness:
  "in_bounds ex_five 5 6 \<and> contiguous_run ex_five 5 6 0 1 4 0 \<and>
   (\<exists>g'. check_win 5 6 True ex_five = Inr (True, g')) \<and>
   in_bounds ex_gap 5 6 \<and> check_win 5 6 True ex_gap = Inr (False, ex_gap) \<and>
   \<not> (\<exists>dx dy a b. (dx, dy) \<in> set directions \<and> 0 \<le> a \<and> 0 \<le> b \<and>
                    target ex_gap \<le> a + b + 1 \<and> contiguous_run ex_gap 5 6 dx dy a b)"
proof -
  have i: "in_bounds ex_five 5 6" by code_simp
  have r: "contiguous_run ex_five 5 6 0 1 4 0" by code_simp
  have c: "cell ex_five 5 6 \<noteq> CHR ''B''" "cell ex_five 5 6 \<noteq> CHR '' ''" "target ex_five = 5"
    by code_simp+
  have d: "(0, 1) \<in> set directions" by (simp add: directions_def)
  from check_win_iff_contiguous_run [OF i, of True] obtain w g' where
    w: "check_win 5 6 True ex_five = Inr (w, g')"
       "w \<longleftrightarrow> cell ex_five 5 6 \<noteq> CHR ''B'' \<and> cell ex_five 5 6 \<noteq> CHR '' '' \<and>
                 (\<exists>dx dy a b. (dx, dy) \<in> set directions \<and> 0 \<le> a \<and> 0 \<le> b \<and>
                              target ex_five \<le> a + b + 1 \<and> contiguous_run ex_five 5 6 dx dy a b)"
    by blast
  have "\<exists>dx dy a b. (dx, dy) \<in> set directions \<and> 0 \<le> a \<and> 0 \<le> b \<and>
                              target ex_five \<le> a + b + 1 \<and> contiguous_run ex_five 5 6 dx dy a b"
    using d r c(3) by (intro exI [of _ 0] exI [of _ 1] exI [of _ 4]) simp
  with w c have five: "\<exists>g'. check_win 5 6 True ex_five = Inr (True, g')" by auto
  have j: "in_bounds ex_gap 5 6" by code_simp
  have f: "check_win 5 6 True ex_gap = Inr (False, ex_gap)" by code_simp
  have e: "cell ex_gap 5 6 \<noteq> CHR ''B''" "cell ex_gap 5 6 \<noteq> CHR '' ''" by code_simp+
  from check_win_iff_contiguous_run [OF j, of True] f e
  have "\<not> (\<exists>dx dy a b. (dx, dy) \<in> set directions \<and> 0 \<le> a \<and> 0 \<le> b \<and>
                    target ex_gap \<le> a + b + 1 \<and> contiguous_run ex_gap 5 6 dx dy a b)"
    by auto
  with i r five j f show ?thesis by (intro conjI)
qed

section \<open>Evaluation\<close>

lemma fold_cond_add:
  "fold (\<lambda>y ps. if P y then ps + f y else ps) ys (a::int)
     = a + sum_list (map (\<lambda>y. if P y then f y else 0) ys)"
  by (induction ys arbitrary: a) simp_all

lemma fold_cond_add_fun:
  "fold (\<lambda>y ps. if P y then ps + f y else ps) ys
     = (\<lambda>a::int. a + sum_list (map (\<lambda>y. if P y then f y else 0) ys))"
  by (rule ext) (rule fold_cond_add)

lemma fold_add:
  "fold (\<lambda>x ps. ps + f x) xs (a::int) = a + sum_list (map f xs)"
  by (induction xs arbitrary: a) simp_all

lemma distinct_py_range: "distinct (py_range n)"
  by (simp add: py_range_def)

lemma set_py_range_eq: "set (py_range n) = {0..n - 1}"
  by (simp add: py_range_def)

lemma player_score_sum:
  "player_score g p = (\<Sum>(x, y) \<in> cells_of g p. evaluate_position g x y p)"
proof -
  let ?R = "py_range (size_g g)"
  let ?f = "\<lambda>x y. if cell g x y = p then evaluate_position g x y p else 0"
  have "player_score g p =
          fold (\<lambda>x ps. ps + sum_list (map (?f x) ?R)) ?R 0"
    unfolding player_score_def by (simp only: fold_cond_add_fun)
  also have "\<dots> = sum_list (map (\<lambda>x. sum_list (map (?f x) ?R)) ?R)"
    by (simp add: fold_add)
  also have "\<dots> = (\<Sum>x \<in> set ?R. \<Sum>y \<in> set ?R. ?f x y)"
    by (simp add: sum_list_distinct_conv_sum_set distinct_py_range)
  also have "\<dots> = (\<Sum>(x, y) \<in> set ?R \<times> set ?R. ?f x y)"
    by (simp add: sum.cartesian_product)
  also have "\<dots> = (\<Sum>(x, y) \<in> {z \<in> set ?R \<times> set ?R. cell g (fst z) (snd z) = p}.
                      evaluate_position g x y p)"
    by (subst sum.inter_filter) (auto simp: case_prod_beta intro!: sum.cong)
  also have "{z \<in> set ?R \<times> set ?R. cell g (fst z) (snd z) = p} = cells_of g p"
    by (auto simp: cells_of_def in_bounds_def set_py_range_eq)
  finally show ?thesis .
qed

lemma heuristic_evaluation_sum:
  "heuristic_evaluation g =
     (\<Sum>(x, y) \<in> cells_of g (CHR ''O''). evaluate_position g x y (CHR ''O''))
     - (\<Sum>(x, y) \<in> cells_of g (CHR ''X''). evaluate_position g x y (CHR ''X''))
     - (3 - ai_power_moves_remaining g) * 50
     + (3 - user_power_moves_remaining g) * 50"
  by (simp add: heuristic_evaluation_def player_score_sum)

text \<open>
  Claim C7. \<open>evaluate\<close> returns 10000 when \<open>last_move\<close> is set, its cell holds
  \<open>'O'\<close> and \<open>check_win\<close> there is true; -10000 when the cell holds \<open>'X'\<close> and
  \<open>check_win\<close> is true; and the value of \<open>heuristic_evaluation\<close> otherwise (no last
  move, another cell content, or no win). \<open>heuristic_evaluation\<close> is the sum of
  \<open>evaluate_position\<close> over the engine's cells, minus the sum over the human's cells,
  minus 50 for each of the 3 power moves the engine has spent, plus 50 for each the
  human has spent.
\<close>

theorem evaluate_cases:
  "(last_move g = Some (x, y) \<and> board_at g x y = Inr (CHR ''O'') \<and>
      check_win x y False g = Inr (True, g') \<longrightarrow> evaluate g = Inr 10000) \<and>
   (last_move g = Some (x, y) \<and> board_at g x y = Inr (CHR ''X'') \<and>
      check_win x y False g = Inr (True, g') \<longrightarrow> evaluate g = Inr (- 10000)) \<and>
   (last_move g = None \<or>
    (last_move g = Some (x, y) \<and> board_at g x y = Inr c \<and>
       ((c \<noteq> CHR ''O'' \<and> c \<noteq> CHR ''X'') \<or> check_win x y False g = Inr (False, g')))
      \<longrightarrow> evaluate g = Inr (heuristic_evaluation g)) \<and>
   heuristic_evaluation g =
     (\<Sum>(x, y) \<in> cells_of g (CHR ''O''). evaluate_position g x y (CHR ''O''))
     - (\<Sum>(x, y) \<in> cells_of g (CHR ''X''). evaluate_position g x y (CHR ''X''))
     - (3 - ai_power_moves_remaining g) * 50
     + (3 - user_power_moves_remaining g) * 50"
proof (intro conjI impI)
  show "heuristic_evaluation g =
     (\<Sum>(x, y) \<in> cells_of g (CHR ''O''). evaluate_position g x y (CHR ''O''))
     - (\<Sum>(x, y) \<in> cells_of g (CHR ''X''). evaluate_position g x y (CHR ''X''))
     - (3 - ai_power_moves_remaining g) * 50
     + (3 - user_power_moves_remaining g) * 50"
    by (rule heuristic_evaluation_sum)
qed (auto simp: evaluate_def)

text \<open>The theorem on a win of the engine, a win of the human and a position without a
  win.\<close>

theorem evaluate_cases_witness:
  "last_move ex_five_ai = Some (4, 2) \<and> board_at ex_five_ai 4 2 = Inr (CHR ''O'') \<and>
   check_win 4 2 False ex_five_ai = Inr (True, ex_five_ai) \<and>
   evaluate ex_five_ai = Inr 10000 \<and>
   last_move ex_five = Some (5, 6) \<and> board_at ex_five 5 6 = Inr (CHR ''X'') \<and>
   check_win 5 6 False ex_five = Inr (True, ex_five) \<and>
   evaluate ex_five = Inr (- 10000) \<and>
   last_move ex_gap = Some (5, 6) \<and> board_at ex_gap 5 6 = Inr (CHR ''X'') \<and>
   check_win 5 6 False ex_gap = Inr (False, ex_gap) \<and>
   evaluate ex_gap = Inr (heuristic_evaluation ex_gap) \<and>
   heuristic_evaluation ex_gap =
     (\<Sum>(x, y) \<in> cells_of ex_gap (CHR ''O''). evaluate_position ex_gap x y (CHR ''O''))
     - (\<Sum>(x, y) \<in> cells_of ex_gap (CHR ''X''). evaluate_position ex_gap x y (CHR ''X''))
     - (3 - ai_power_moves_remaining ex_gap) * 50
     + (3 - user_power_moves_remaining ex_gap) * 50"
proof -
  have a: "last_move ex_five_ai = Some (4, 2) \<and> board_at ex_five_ai 4 2 = Inr (CHR ''O'') \<and>
           check_win 4 2 False ex_five_ai = Inr (True, ex_five_ai)" by code_simp
  have b: "last_move ex_five = Some (5, 6) \<and> board_at ex_five 5 6 = Inr (CHR ''X'') \<and>
           check_win 5 6 False ex_five = Inr (True, ex_five)" by code_simp
  have c: "last_move ex_gap = Some (5, 6) \<and> board_at ex_gap 5 6 = Inr (CHR ''X'') \<and>
           check_win 5 6 False ex_gap = Inr (False, ex_gap)" by code_simp
  show ?thesis
    using a b c
      evaluate_cases [of ex_five_ai 4 2 ex_five_ai]
      evaluate_cases [of ex_five 5 6 ex_five]
      evaluate_cases [of ex_gap 5 6 ex_gap "CHR ''X''"]
    by blast
qed

text \<open>Every example position has the shape of a board.\<close>

lemma examples_wf:
  "wf ex_first_move \<and> wf ex_over \<and> wf ex_blocked \<and> wf ex_removed \<and> wf ex_cornered \<and>
   wf ex_five \<and> wf ex_gap \<and> wf ex_five_ai"
  by code_simp

section \<open>The centre fallback of the enumeration\<close>

text \<open>
  When no piece has an empty neighbour, \<open>get_valid_moves\<close> offers a Place at the
  centre without looking at what the centre holds. On a board whose centre is blocked the
  trial Place overwrites the block and its undo writes \<open>' '\<close>: the grid is not
  restored. This is why the restoration theorem asks that the cell of a Place be empty.
\<close>

lemma ex_centre_blocked_reached:
  "block_tile 5 5 (init 10 5) = Inr (Some (True, True), ex_centre_blocked)"
  by code_simp

lemma centre_fallback_overwrites_block:
  "get_valid_moves True True ex_centre_blocked = [(''place'', 5, 5)] \<and>
   cell ex_centre_blocked 5 5 = CHR ''B'' \<and>
   max_loop 0 [(''place'', 5, 5)] NegInf NegInf PosInf ex_centre_blocked
     = Inr (Fin 0, ex_centre_blocked\<lparr>board := board (init 10 5), last_move := None\<rparr>) \<and>
   board (init 10 5) \<noteq> board ex_centre_blocked"
  by code_simp

end
